theory Spec2Isabelle
  imports Complex_Main "HOL-Library.Word" "HOL-Library.Signed_Division"
begin

unbundle bit_operations_syntax

section \<open>Image packetizer (\<open>mx_keypad_device.cpp\<close>)\<close>

type_synonym u8 = "8 word"
type_synonym u16 = "16 word"
type_synonym packet = "u8 list"

definition MAX_PACKET_SIZE :: nat where
  "MAX_PACKET_SIZE = 4095"

definition LCD_SIZE :: nat where
  "LCD_SIZE = 118"

definition PACKET_BASE_HEADER :: "u8 list" where
  "PACKET_BASE_HEADER = [0x14, 0xff, 0x02, 0x2b]"

definition PACKET1_GEOMETRY :: "u8 list" where
  "PACKET1_GEOMETRY = [0x01, 0x00, 0x01, 0x00, 0x00, 0x00]"

definition PACKET1_HEADER :: nat where
  "PACKET1_HEADER = 20"

definition SUBSEQUENT_HEADER :: nat where
  "SUBSEQUENT_HEADER = 5"

text \<open>
  \<open>memcpy(dst + off, src, length src)\<close> on a buffer held as a byte list. Every call in the
  source stays inside the destination buffer (\<open>off + length src \<le> length dst\<close>).
\<close>

definition memcpy :: "u8 list \<Rightarrow> nat \<Rightarrow> u8 list \<Rightarrow> u8 list" where
  "memcpy dst off src = take off dst @ src @ drop (off + length src) dst"

text \<open>
  \<open>generateWritePacketByte(int index, bool isFirst, bool isLast)\<close>: the bitwise or is computed
  on \<open>int\<close> and the result is narrowed to \<open>uint8_t\<close>.
\<close>

definition generateWritePacketByte :: "int \<Rightarrow> bool \<Rightarrow> bool \<Rightarrow> u8" where
  "generateWritePacketByte index isFirst isLast =
     (let value = (word_of_int (index OR 0x20) :: u8);
          value = (if isFirst then value OR 0x80 else value);
          value = (if isLast then value OR 0x40 else value)
      in value)"

text \<open>
  The \<open>while (remainingBytes > 0)\<close> loop, which is the same text in \<open>generateImagePackets\<close>
  and \<open>generateRawImagePackets\<close>. The loop variables are the arguments; \<open>result\<close> is the
  vector the packets are pushed onto. \<open>part\<close> is a C \<open>int\<close>, held here as an unbounded
  integer (it would take more than \<open>2^31\<close> packets to overflow it).
\<close>

function subsequentPackets ::
  "u8 list \<Rightarrow> u8 list \<Rightarrow> nat \<Rightarrow> nat \<Rightarrow> int \<Rightarrow> packet list \<Rightarrow> packet list" where
  "subsequentPackets jpegData packet_header remainingBytes currentOffset part result =
     (if remainingBytes > 0 then
        (let byteCount = min remainingBytes (MAX_PACKET_SIZE - SUBSEQUENT_HEADER);
             packet = replicate MAX_PACKET_SIZE 0;
             packet_header = packet_header[4 :=
               generateWritePacketByte part False (remainingBytes - byteCount = 0)];
             packet = memcpy packet 0 packet_header;
             packet = (if byteCount > 0
                       then memcpy packet SUBSEQUENT_HEADER
                              (take byteCount (drop currentOffset jpegData))
                       else packet)
         in subsequentPackets jpegData packet_header (remainingBytes - byteCount)
              (currentOffset + byteCount) (part + 1) (result @ [packet]))
      else result)"
  by pat_completeness auto
termination
  by (relation "measure (\<lambda>(d, h, r, off, p, acc). r)")
     (auto simp: MAX_PACKET_SIZE_def SUBSEQUENT_HEADER_def)

text \<open>\<open>totalPackets\<close> as both generators compute it up front (used for \<open>reserve\<close>).\<close>

definition totalPackets :: "nat \<Rightarrow> nat" where
  "totalPackets jpegSize =
     (let totalPackets = 1;
          remainingAfterFirst =
            (if jpegSize > MAX_PACKET_SIZE - PACKET1_HEADER
             then jpegSize - (MAX_PACKET_SIZE - PACKET1_HEADER) else 0)
      in if remainingAfterFirst > 0
         then totalPackets +
                (remainingAfterFirst + (MAX_PACKET_SIZE - SUBSEQUENT_HEADER) - 1) div
                  (MAX_PACKET_SIZE - SUBSEQUENT_HEADER)
         else totalPackets)"

text \<open>
  \<open>generateRawImagePackets\<close>. A packet buffer comes from \<open>packet_pool.acquire()\<close>, which
  hands out a vector of \<open>MAX_PACKET_SIZE\<close> bytes, and is cleared by \<open>memset\<close>: that is
  \<open>replicate MAX_PACKET_SIZE 0\<close>. \<open>result.push_back\<close> copies the buffer, so the packets of
  the result do not share storage. The buffer size is a \<open>size_t\<close>, held as a natural number.
\<close>

definition generateRawImagePackets ::
  "u16 \<Rightarrow> u16 \<Rightarrow> u16 \<Rightarrow> u16 \<Rightarrow> u8 list \<Rightarrow> packet list" where
  "generateRawImagePackets x y width height jpegData =
     (let packet1_header = replicate PACKET1_HEADER (0 :: u8);
          packet1_header = memcpy packet1_header 0 PACKET_BASE_HEADER;
          packet1_header = packet1_header[4 := generateWritePacketByte 1 True
                             (length jpegData \<le> MAX_PACKET_SIZE - PACKET1_HEADER)];
          packet1_header = memcpy packet1_header 5 PACKET1_GEOMETRY;
          packet1_header = packet1_header[9 := ucast (drop_bit 8 x AND 0xff)];
          packet1_header = packet1_header[10 := ucast (x AND 0xff)];
          packet1_header = packet1_header[11 := ucast (drop_bit 8 y AND 0xff)];
          packet1_header = packet1_header[12 := ucast (y AND 0xff)];
          packet1_header = packet1_header[13 := ucast (drop_bit 8 width AND 0xff)];
          packet1_header = packet1_header[14 := ucast (width AND 0xff)];
          packet1_header = packet1_header[15 := ucast (drop_bit 8 height AND 0xff)];
          packet1_header = packet1_header[16 := ucast (height AND 0xff)];
          packet1_header = packet1_header[18 := of_nat (drop_bit 8 (length jpegData) AND 0xff)];
          packet1_header = packet1_header[19 := of_nat (length jpegData AND 0xff)];
          packet1 = replicate MAX_PACKET_SIZE (0 :: u8);
          packet1 = memcpy packet1 0 packet1_header;
          byteCount1 = min (length jpegData) (MAX_PACKET_SIZE - PACKET1_HEADER);
          packet1 = (if byteCount1 > 0
                     then memcpy packet1 PACKET1_HEADER (take byteCount1 jpegData)
                     else packet1);
          result = [packet1];
          packet_header = memcpy (replicate SUBSEQUENT_HEADER (0 :: u8)) 0 PACKET_BASE_HEADER;
          remainingBytes = length jpegData - byteCount1;
          currentOffset = byteCount1
      in subsequentPackets jpegData packet_header remainingBytes currentOffset 2 result)"

text \<open>
  \<open>generateImagePackets(int keyIndex, ...)\<close>: the rectangle is computed from the key index
  with C's truncating \<open>/\<close> and \<open>%\<close>, narrowed to \<open>uint16_t\<close>; width and height are
  \<open>LCD_SIZE\<close>. Its only caller passes \<open>0 \<le> keyIndex \<le> 8\<close>.
\<close>

definition generateImagePackets :: "int \<Rightarrow> u8 list \<Rightarrow> packet list" where
  "generateImagePackets keyIndex jpegData =
     (let row = keyIndex sdiv 3;
          col = keyIndex smod 3;
          x = (word_of_int (23 + col * (118 + 40)) :: u16);
          y = (word_of_int (6 + row * (118 + 40)) :: u16);
          packet1_header = replicate PACKET1_HEADER (0 :: u8);
          packet1_header = memcpy packet1_header 0 PACKET_BASE_HEADER;
          packet1_header = packet1_header[4 := generateWritePacketByte 1 True
                             (length jpegData \<le> MAX_PACKET_SIZE - PACKET1_HEADER)];
          packet1_header = memcpy packet1_header 5 PACKET1_GEOMETRY;
          packet1_header = packet1_header[9 := ucast (drop_bit 8 x AND 0xff)];
          packet1_header = packet1_header[10 := ucast (x AND 0xff)];
          packet1_header = packet1_header[11 := ucast (drop_bit 8 y AND 0xff)];
          packet1_header = packet1_header[12 := ucast (y AND 0xff)];
          packet1_header = packet1_header[13 := of_nat (drop_bit 8 LCD_SIZE AND 0xff)];
          packet1_header = packet1_header[14 := of_nat (LCD_SIZE AND 0xff)];
          packet1_header = packet1_header[15 := of_nat (drop_bit 8 LCD_SIZE AND 0xff)];
          packet1_header = packet1_header[16 := of_nat (LCD_SIZE AND 0xff)];
          packet1_header = packet1_header[18 := of_nat (drop_bit 8 (length jpegData) AND 0xff)];
          packet1_header = packet1_header[19 := of_nat (length jpegData AND 0xff)];
          packet1 = replicate MAX_PACKET_SIZE (0 :: u8);
          packet1 = memcpy packet1 0 packet1_header;
          byteCount1 = min (length jpegData) (MAX_PACKET_SIZE - PACKET1_HEADER);
          packet1 = (if byteCount1 > 0
                     then memcpy packet1 PACKET1_HEADER (take byteCount1 jpegData)
                     else packet1);
          result = [packet1];
          packet_header = memcpy (replicate SUBSEQUENT_HEADER (0 :: u8)) 0 PACKET_BASE_HEADER;
          remainingBytes = length jpegData - byteCount1;
          currentOffset = byteCount1
      in subsequentPackets jpegData packet_header remainingBytes currentOffset 2 result)"

subsection \<open>What the packets are compared with\<close>

text \<open>
  The 20 bytes of the first packet's header written out: signature, sequence-control byte
  \<open>c\<close>, geometry tag \<open>01 00 01 00\<close> (the last two bytes of \<open>PACKET1_GEOMETRY\<close> are
  overwritten by \<open>x\<close>), then \<open>x\<close>, \<open>y\<close>, width and height in big-endian order, one zero
  byte, and the two bytes of the length field. Lemma \<open>raw_unfold\<close> shows that this is the
  header the generators assemble.
\<close>

definition firstHeader :: "u8 \<Rightarrow> u16 \<Rightarrow> u16 \<Rightarrow> u16 \<Rightarrow> u16 \<Rightarrow> nat \<Rightarrow> u8 list" where
  "firstHeader c x y w h n =
     [0x14, 0xff, 0x02, 0x2b, c, 0x01, 0x00, 0x01, 0x00,
      ucast (drop_bit 8 x AND 0xff), ucast (x AND 0xff),
      ucast (drop_bit 8 y AND 0xff), ucast (y AND 0xff),
      ucast (drop_bit 8 w AND 0xff), ucast (w AND 0xff),
      ucast (drop_bit 8 h AND 0xff), ucast (h AND 0xff),
      0, of_nat (drop_bit 8 n AND 0xff), of_nat (n AND 0xff)]"

text \<open>
  The payload of each packet as the protocol lays it out, read back from a packet sequence
  that carries \<open>totalSize\<close> payload bytes in all: the first packet has a 20-byte header and
  every later one a 5-byte header (\<open>headerSize\<close>), and a packet carries as many of the bytes
  still due as fit behind its header. This follows the description of the protocol, not the
  generators; it is what their output is checked against.
\<close>

definition headerSize :: "nat \<Rightarrow> nat" where
  "headerSize i = (if i = 0 then PACKET1_HEADER else SUBSEQUENT_HEADER)"

fun payloadsFrom :: "nat \<Rightarrow> nat \<Rightarrow> packet list \<Rightarrow> u8 list list" where
  "payloadsFrom hdr remaining [] = []"
| "payloadsFrom hdr remaining (p # ps) =
     (let n = min remaining (MAX_PACKET_SIZE - hdr)
      in take n (drop hdr p) # payloadsFrom SUBSEQUENT_HEADER (remaining - n) ps)"

definition packetPayloads :: "nat \<Rightarrow> packet list \<Rightarrow> u8 list list" where
  "packetPayloads totalSize pkts = payloadsFrom PACKET1_HEADER totalSize pkts"

text \<open>The corner of a key's rectangle, as \<open>generateImagePackets\<close> computes it.\<close>

definition keyX :: "int \<Rightarrow> u16" where
  "keyX keyIndex = word_of_int (23 + (keyIndex smod 3) * (118 + 40))"

definition keyY :: "int \<Rightarrow> u16" where
  "keyY keyIndex = word_of_int (6 + (keyIndex sdiv 3) * (118 + 40))"

section \<open>Session state (\<open>MXKeypadDevice\<close> and its \<open>Impl\<close>)\<close>

text \<open>
  A decoded animation, as the code uses it: \<open>GifAnimation\<close> has the frames and the loop
  flag, \<open>GifFrame\<close> the compressed image and its delay. (The header that declares them,
  \<open>util/gif_decoder.h\<close>, is not among the sources; these are the members the device code
  reads and writes.)
\<close>

record GifFrame =
  jpeg_data :: "u8 list"
  delay_ms :: int

record GifAnimation =
  frames :: "GifFrame list"
  loop :: bool

text \<open>
  \<open>struct KeyAnimation\<close>. \<open>animation_thread\<close> tells whether the \<open>std::thread\<close> member owns
  a thread (is joinable).
\<close>

record KeyAnimation =
  animation :: GifAnimation
  running :: bool
  animation_thread :: bool
  current_frame :: nat

text \<open>
  The fields of \<open>MXKeypadDevice\<close> and of its \<open>Impl\<close> that the operations below read and
  write. \<open>event_callback\<close> is the member \<open>event_callback_\<close>, a \<open>std::function\<close>; the code
  only tests whether it holds a callable and calls it, so the model keeps that one bit and
  returns the events the callback is called with. \<open>monitor_thread\<close> tells whether the
  \<open>std::thread\<close> member owns a thread. \<open>animations\<close> is a \<open>std::map\<close> from key index to
  the owned \<open>KeyAnimation\<close>, \<open>screen_animation\<close> a \<open>unique_ptr\<close> that may be null.
\<close>

record MXKeypadDevice =
  initialized :: bool
  monitoring :: bool
  monitor_thread :: bool
  event_callback :: bool
  pressed_buttons :: "u8 set"
  last_p_button :: u8
  animations :: "int \<rightharpoonup> KeyAnimation"
  screen_animation :: "KeyAnimation option"

text \<open>The state the constructor leaves: the default member initialisers.\<close>

definition new_device :: MXKeypadDevice where
  "new_device = \<lparr>initialized = False, monitoring = False, monitor_thread = False,
     event_callback = False, pressed_buttons = {}, last_p_button = 0,
     animations = Map.empty, screen_animation = None\<rparr>"

text \<open>
  The thread operations a call performs are returned as a list, in order: a thread is
  spawned (\<open>std::thread\<close> constructed), asked to stop (its run flag is set to false) or
  joined.
\<close>

datatype thread_id = MonitorThread | KeyAnimationThread int | ScreenAnimationThread

datatype thread_action = Spawn thread_id | RequestStop thread_id | Join thread_id

section \<open>Input decoder (\<open>MXKeypadDevice::startMonitoring\<close>)\<close>

text \<open>
  \<open>ButtonEvent\<close> as the decoder fills it in. The timestamp (a reading of the steady clock) is
  left out.
\<close>

datatype EventType = BUTTON_PRESS | BUTTON_RELEASE

record ButtonEvent =
  event_type :: EventType
  button_code :: u8
  pressed :: bool

definition press_event :: "u8 \<Rightarrow> ButtonEvent" where
  "press_event code = \<lparr>event_type = BUTTON_PRESS, button_code = code, pressed = True\<rparr>"

definition release_event :: "u8 \<Rightarrow> ButtonEvent" where
  "release_event code = \<lparr>event_type = BUTTON_RELEASE, button_code = code, pressed = False\<rparr>"

text \<open>\<open>if (event_callback_) event_callback_(event);\<close>\<close>

definition deliver :: "MXKeypadDevice \<Rightarrow> ButtonEvent \<Rightarrow> ButtonEvent list" where
  "deliver dev event = (if event_callback dev then [event] else [])"

text \<open>
  The loop \<open>for (size_t i = 6; i < bytes_read; i++)\<close> that collects the codes of a grid report
  into \<open>current_pressed\<close>, stopping at the first zero byte.
\<close>

function collect_pressed :: "u8 list \<Rightarrow> nat \<Rightarrow> nat \<Rightarrow> u8 set \<Rightarrow> u8 set" where
  "collect_pressed report bytes_read i current_pressed =
     (if i < bytes_read then
        (let button_code_raw = report ! i
         in if button_code_raw = 0 then current_pressed
            else collect_pressed report bytes_read (i + 1)
                   (if button_code_raw \<ge> 1 \<and> button_code_raw \<le> 9
                    then insert (button_code_raw - 1) current_pressed
                    else current_pressed))
      else current_pressed)"
  by pat_completeness auto
termination
  by (relation "measure (\<lambda>(r, n, i, c). n - i)") auto

text \<open>
  The part of the monitoring loop's body that follows \<open>read\<close>: \<open>report\<close> is the 256-byte
  buffer and \<open>bytes_read\<close> what \<open>read\<close> returned (negative on error). The result is the list
  of events handed to the callback, in order, and the updated decoder fields. A \<open>std::set\<close> is
  iterated in ascending order.
\<close>

definition monitor_report ::
  "MXKeypadDevice \<Rightarrow> u8 list \<Rightarrow> int \<Rightarrow> ButtonEvent list \<times> MXKeypadDevice" where
  "monitor_report dev report bytes_read =
     (let (is_p_button_event, events, dev) =
            (if bytes_read \<ge> 6 \<and> report ! 0 = 0x11 \<and> report ! 1 = 0xff \<and>
                report ! 2 = 0x0b \<and> report ! 3 = 0x00
             then
               (if report ! 4 = 0x01 \<and> (report ! 5 = 0xa1 \<or> report ! 5 = 0xa2)
                then (True, deliver dev (press_event (report ! 5)),
                      dev\<lparr>last_p_button := report ! 5\<rparr>)
                else if report ! 4 = 0x00 \<and> last_p_button dev \<noteq> 0
                then (True, deliver dev (release_event (last_p_button dev)),
                      dev\<lparr>last_p_button := 0\<rparr>)
                else (True, [], dev))
             else (False, [], dev))
      in if \<not> is_p_button_event \<and> bytes_read > 0 \<and> bytes_read \<ge> 7 then
           (if report ! 0 = 0x13 \<and> report ! 1 = 0xff \<and> report ! 2 = 0x02 \<and>
               report ! 3 = 0x00 \<and> report ! 5 = 0x01
            then
              (let current_pressed = collect_pressed report (nat bytes_read) 6 {};
                   presses = concat (map (\<lambda>button_code.
                               if button_code \<notin> pressed_buttons dev
                               then deliver dev (press_event button_code) else [])
                             (sorted_list_of_set current_pressed));
                   to_release = filter (\<lambda>button_code. button_code \<notin> current_pressed)
                                  (sorted_list_of_set (pressed_buttons dev));
                   releases = concat (map (\<lambda>button_code.
                                deliver dev (release_event button_code)) to_release)
               in (events @ presses @ releases, dev\<lparr>pressed_buttons := current_pressed\<rparr>))
            else (events, dev))
         else (events, dev))"

text \<open>The hidraw report read for a test: the given bytes at the start of the 256-byte buffer.\<close>

definition report_buffer :: "u8 list \<Rightarrow> u8 list" where
  "report_buffer bytes = bytes @ replicate (256 - length bytes) 0"

text \<open>
  \<open>setEventCallback\<close>, \<open>startMonitoring\<close> and \<open>stopMonitoring\<close>. \<open>has_callable\<close> tells
  whether the \<open>std::function\<close> passed to \<open>setEventCallback\<close> holds a callable.
\<close>

definition setEventCallback :: "MXKeypadDevice \<Rightarrow> bool \<Rightarrow> MXKeypadDevice" where
  "setEventCallback dev has_callable = dev\<lparr>event_callback := has_callable\<rparr>"

text \<open>
  \<open>startMonitoring\<close> assigns the new thread to \<open>impl_->monitor_thread\<close>. When that member
  still owns a thread (one that left its loop by itself and was never joined), the move
  assignment calls \<open>std::terminate\<close>: the result is \<open>None\<close>.
\<close>

definition startMonitoring ::
  "MXKeypadDevice \<Rightarrow> (MXKeypadDevice \<times> thread_action list) option" where
  "startMonitoring dev =
     (if monitoring dev \<or> \<not> event_callback dev then Some (dev, [])
      else if monitor_thread dev then None
      else Some (dev\<lparr>monitoring := True, monitor_thread := True\<rparr>, [Spawn MonitorThread]))"

definition stopMonitoring :: "MXKeypadDevice \<Rightarrow> MXKeypadDevice \<times> thread_action list" where
  "stopMonitoring dev =
     (if monitoring dev then
        (let dev = dev\<lparr>monitoring := False\<rparr>
         in if monitor_thread dev
            then (dev\<lparr>monitor_thread := False\<rparr>, [RequestStop MonitorThread, Join MonitorThread])
            else (dev, [RequestStop MonitorThread]))
      else (dev, []))"

text \<open>
  The monitoring thread leaves its loop by itself when \<open>open\<close>, \<open>poll\<close> or \<open>read\<close> fails;
  its last statement is \<open>impl_->monitoring = false\<close>.
\<close>

definition monitor_thread_exit :: "MXKeypadDevice \<Rightarrow> MXKeypadDevice" where
  "monitor_thread_exit dev = dev\<lparr>monitoring := False\<rparr>"

text \<open>A caller's sequence of monitoring calls, interleaved with exits of the thread.\<close>

datatype monitoring_call =
  SetEventCallback bool | StartMonitoring | StopMonitoring | MonitorThreadExit

fun monitoring_step ::
  "MXKeypadDevice \<Rightarrow> monitoring_call \<Rightarrow> (MXKeypadDevice \<times> thread_action list) option" where
  "monitoring_step dev (SetEventCallback has_callable) =
     Some (setEventCallback dev has_callable, [])"
| "monitoring_step dev StartMonitoring = startMonitoring dev"
| "monitoring_step dev StopMonitoring = Some (stopMonitoring dev)"
| "monitoring_step dev MonitorThreadExit = Some (monitor_thread_exit dev, [])"

fun monitoring_calls ::
  "MXKeypadDevice \<Rightarrow> monitoring_call list \<Rightarrow> (MXKeypadDevice \<times> thread_action list) option" where
  "monitoring_calls dev [] = Some (dev, [])"
| "monitoring_calls dev (c # cs) =
     (case monitoring_step dev c of
        None \<Rightarrow> None
      | Some (dev', acts) \<Rightarrow>
          (case monitoring_calls dev' cs of
             None \<Rightarrow> None
           | Some (dev'', acts') \<Rightarrow> Some (dev'', acts @ acts')))"

section \<open>Channel writer (\<open>setKeyImage\<close>, \<open>setRawImage\<close>, \<open>setScreenImage\<close>)\<close>

text \<open>
  The hidraw descriptor as the writer sees it. A \<open>writev\<close> call returns a byte count, or
  \<open>-1\<close> with \<open>errno\<close> set; what the kernel answers to the \<open>n\<close>-th call is given by
  \<open>replies\<close>. \<open>writes\<close> records every call made: the \<open>O_NONBLOCK\<close> status flag at the time
  and the buffers of the \<open>iovec\<close> array. \<open>fcntl\<close> is taken to succeed and to leave
  \<open>errno\<close> alone.
\<close>

datatype errno = EAGAIN | EWOULDBLOCK | EIO

datatype ssize_result = Returned nat | Failed errno

record channel =
  replies :: "nat \<Rightarrow> ssize_result"
  writes :: "(bool \<times> packet list) list"
  O_NONBLOCK :: bool

definition writev :: "channel \<Rightarrow> packet list \<Rightarrow> ssize_result \<times> channel" where
  "writev ch iov =
     (replies ch (length (writes ch)), ch\<lparr>writes := writes ch @ [(O_NONBLOCK ch, iov)]\<rparr>)"

text \<open>
  The transmission, which is the same text in \<open>setKeyImage\<close> and \<open>setRawImage\<close>: build the
  \<open>iovec\<close> array over all packets, set \<open>O_NONBLOCK\<close>, \<open>writev\<close>, restore the flags, fall
  back to one more \<open>writev\<close> on \<open>EAGAIN\<close> or \<open>EWOULDBLOCK\<close>, and compare the count with
  \<open>packet_count * MAX_PACKET_SIZE\<close>.
\<close>

definition write_packets :: "channel \<Rightarrow> packet list \<Rightarrow> bool \<times> channel" where
  "write_packets ch packets =
     (let packet_count = length packets;
          iov = packets;
          flags = O_NONBLOCK ch;
          ch = ch\<lparr>O_NONBLOCK := True\<rparr>;
          (totalWritten, ch) = writev ch iov;
          ch = ch\<lparr>O_NONBLOCK := flags\<rparr>;
          expectedTotal = packet_count * MAX_PACKET_SIZE
      in case totalWritten of
           Failed e \<Rightarrow>
             (if e = EAGAIN \<or> e = EWOULDBLOCK
              then (let (totalWritten, ch) = writev ch iov
                    in (totalWritten = Returned expectedTotal, ch))
              else (False, ch))
         | Returned n \<Rightarrow> (n = expectedTotal, ch))"

definition setKeyImage ::
  "MXKeypadDevice \<Rightarrow> channel \<Rightarrow> int \<Rightarrow> u8 list \<Rightarrow> bool \<times> channel" where
  "setKeyImage dev ch keyIndex jpegData =
     (if keyIndex < 0 \<or> keyIndex > 8 \<or> \<not> initialized dev then (False, ch)
      else (let packets = generateImagePackets keyIndex jpegData
            in if packets = [] then (False, ch)
               else write_packets ch packets))"

definition setRawImage ::
  "MXKeypadDevice \<Rightarrow> channel \<Rightarrow> u16 \<Rightarrow> u16 \<Rightarrow> u16 \<Rightarrow> u16 \<Rightarrow> u8 list \<Rightarrow> bool \<times> channel"
  where
  "setRawImage dev ch x y width height jpegData =
     (if \<not> initialized dev then (False, ch)
      else (let packets = generateRawImagePackets x y width height jpegData
            in if packets = [] then (False, ch)
               else write_packets ch packets))"

definition SCREEN_WIDTH :: u16 where
  "SCREEN_WIDTH = 434"

definition SCREEN_HEIGHT :: u16 where
  "SCREEN_HEIGHT = 434"

definition setScreenImage :: "MXKeypadDevice \<Rightarrow> channel \<Rightarrow> u8 list \<Rightarrow> bool \<times> channel" where
  "setScreenImage dev ch jpegData = setRawImage dev ch 23 6 SCREEN_WIDTH SCREEN_HEIGHT jpegData"

text \<open>A descriptor as \<open>initialize\<close> opens it (\<open>O_RDWR\<close>, blocking), with nothing written yet.\<close>

definition opened_channel :: "(nat \<Rightarrow> ssize_result) \<Rightarrow> channel" where
  "opened_channel answers = \<lparr>replies = answers, writes = [], O_NONBLOCK = False\<rparr>"

text \<open>The outcomes of \<open>writev\<close> on which the writer falls back to the second call.\<close>

definition would_block :: "ssize_result \<Rightarrow> bool" where
  "would_block r = (r = Failed EAGAIN \<or> r = Failed EWOULDBLOCK)"

section \<open>Animation tasks (\<open>setKeyGif\<close>, \<open>setScreenGif\<close>, \<open>stopKeyAnimation\<close>, ...)\<close>

text \<open>
  \<open>GifDecoder::decodeGif\<close> and \<open>GifDecoder::decodeGifFromFile\<close> are not among the sources:
  they are parameters here. A decoder gets the source bytes (or the path), the animation to
  fill in and the target size, and returns whether it succeeded together with the animation
  as it left it.
\<close>

type_synonym gif_decoder = "u8 list \<Rightarrow> GifAnimation \<Rightarrow> nat \<Rightarrow> nat \<Rightarrow> bool \<times> GifAnimation"

type_synonym gif_file_decoder = "string \<Rightarrow> GifAnimation \<Rightarrow> nat \<Rightarrow> nat \<Rightarrow> bool \<times> GifAnimation"

definition stopKeyAnimation ::
  "MXKeypadDevice \<Rightarrow> int \<Rightarrow> MXKeypadDevice \<times> thread_action list" where
  "stopKeyAnimation dev keyIndex =
     (case animations dev keyIndex of
        None \<Rightarrow> (dev, [])
      | Some it \<Rightarrow>
          (let it = it\<lparr>running := False\<rparr>;
               acts = [RequestStop (KeyAnimationThread keyIndex)];
               (it, acts) = (if animation_thread it
                             then (it\<lparr>animation_thread := False\<rparr>,
                                   acts @ [Join (KeyAnimationThread keyIndex)])
                             else (it, acts))
           in (dev\<lparr>animations := (animations dev)(keyIndex := None)\<rparr>, acts)))"

definition stopScreenAnimation :: "MXKeypadDevice \<Rightarrow> MXKeypadDevice \<times> thread_action list" where
  "stopScreenAnimation dev =
     (case screen_animation dev of
        None \<Rightarrow> (dev, [])
      | Some it \<Rightarrow>
          (let it = it\<lparr>running := False\<rparr>;
               acts = [RequestStop ScreenAnimationThread];
               (it, acts) = (if animation_thread it
                             then (it\<lparr>animation_thread := False\<rparr>,
                                   acts @ [Join ScreenAnimationThread])
                             else (it, acts))
           in (dev\<lparr>screen_animation := None\<rparr>, acts)))"

text \<open>
  \<open>setKeyGif\<close>: guard, stop the animation of the key, decode, start the thread, store. The
  \<open>KeyAnimation\<close> is built by its constructor (not running, frame 0, no thread) and gets
  the loop flag before decoding.
\<close>

definition setKeyGif ::
  "gif_decoder \<Rightarrow> MXKeypadDevice \<Rightarrow> int \<Rightarrow> u8 list \<Rightarrow> bool \<Rightarrow>
     bool \<times> MXKeypadDevice \<times> thread_action list" where
  "setKeyGif decodeGif dev keyIndex gifData loop_flag =
     (if keyIndex < 0 \<or> keyIndex > 8 \<or> \<not> initialized dev then (False, dev, [])
      else
        (let (dev, acts) = stopKeyAnimation dev keyIndex;
             anim = \<lparr>animation = \<lparr>frames = [], loop = loop_flag\<rparr>, running = False,
                      animation_thread = False, current_frame = 0\<rparr>;
             (decoded, anim_animation) = decodeGif gifData (animation anim) LCD_SIZE LCD_SIZE;
             anim = anim\<lparr>animation := anim_animation\<rparr>
         in if \<not> decoded then (False, dev, acts)
            else if frames (animation anim) = [] then (False, dev, acts)
            else
              (let anim = anim\<lparr>running := True\<rparr>;
                   anim = anim\<lparr>current_frame := 0\<rparr>;
                   anim = anim\<lparr>animation_thread := True\<rparr>;
                   acts = acts @ [Spawn (KeyAnimationThread keyIndex)]
               in (True, dev\<lparr>animations := (animations dev)(keyIndex \<mapsto> anim)\<rparr>, acts))))"

definition setKeyGifFromFile ::
  "gif_file_decoder \<Rightarrow> MXKeypadDevice \<Rightarrow> int \<Rightarrow> string \<Rightarrow> bool \<Rightarrow>
     bool \<times> MXKeypadDevice \<times> thread_action list" where
  "setKeyGifFromFile decodeGifFromFile dev keyIndex gifPath loop_flag =
     (if keyIndex < 0 \<or> keyIndex > 8 \<or> \<not> initialized dev then (False, dev, [])
      else
        (let (dev, acts) = stopKeyAnimation dev keyIndex;
             anim = \<lparr>animation = \<lparr>frames = [], loop = loop_flag\<rparr>, running = False,
                      animation_thread = False, current_frame = 0\<rparr>;
             (decoded, anim_animation) =
                decodeGifFromFile gifPath (animation anim) LCD_SIZE LCD_SIZE;
             anim = anim\<lparr>animation := anim_animation\<rparr>
         in if \<not> decoded then (False, dev, acts)
            else if frames (animation anim) = [] then (False, dev, acts)
            else
              (let anim = anim\<lparr>running := True\<rparr>;
                   anim = anim\<lparr>current_frame := 0\<rparr>;
                   anim = anim\<lparr>animation_thread := True\<rparr>;
                   acts = acts @ [Spawn (KeyAnimationThread keyIndex)]
               in (True, dev\<lparr>animations := (animations dev)(keyIndex \<mapsto> anim)\<rparr>, acts))))"

definition setScreenGif ::
  "gif_decoder \<Rightarrow> MXKeypadDevice \<Rightarrow> u8 list \<Rightarrow> bool \<Rightarrow>
     bool \<times> MXKeypadDevice \<times> thread_action list" where
  "setScreenGif decodeGif dev gifData loop_flag =
     (if \<not> initialized dev then (False, dev, [])
      else
        (let (dev, acts) = stopScreenAnimation dev;
             anim = \<lparr>animation = \<lparr>frames = [], loop = loop_flag\<rparr>, running = False,
                      animation_thread = False, current_frame = 0\<rparr>;
             (decoded, anim_animation) =
                decodeGif gifData (animation anim) (unat SCREEN_WIDTH) (unat SCREEN_HEIGHT);
             anim = anim\<lparr>animation := anim_animation\<rparr>
         in if \<not> decoded then (False, dev, acts)
            else if frames (animation anim) = [] then (False, dev, acts)
            else
              (let anim = anim\<lparr>running := True\<rparr>;
                   anim = anim\<lparr>current_frame := 0\<rparr>;
                   anim = anim\<lparr>animation_thread := True\<rparr>;
                   acts = acts @ [Spawn ScreenAnimationThread]
               in (True, dev\<lparr>screen_animation := Some anim\<rparr>, acts))))"

definition setScreenGifFromFile ::
  "gif_file_decoder \<Rightarrow> MXKeypadDevice \<Rightarrow> string \<Rightarrow> bool \<Rightarrow>
     bool \<times> MXKeypadDevice \<times> thread_action list" where
  "setScreenGifFromFile decodeGifFromFile dev gifPath loop_flag =
     (if \<not> initialized dev then (False, dev, [])
      else
        (let (dev, acts) = stopScreenAnimation dev;
             anim = \<lparr>animation = \<lparr>frames = [], loop = loop_flag\<rparr>, running = False,
                      animation_thread = False, current_frame = 0\<rparr>;
             (decoded, anim_animation) =
                decodeGifFromFile gifPath (animation anim) (unat SCREEN_WIDTH) (unat SCREEN_HEIGHT);
             anim = anim\<lparr>animation := anim_animation\<rparr>
         in if \<not> decoded then (False, dev, acts)
            else if frames (animation anim) = [] then (False, dev, acts)
            else
              (let anim = anim\<lparr>running := True\<rparr>;
                   anim = anim\<lparr>current_frame := 0\<rparr>;
                   anim = anim\<lparr>animation_thread := True\<rparr>;
                   acts = acts @ [Spawn ScreenAnimationThread]
               in (True, dev\<lparr>screen_animation := Some anim\<rparr>, acts))))"

text \<open>
  Counting worker threads along a list of thread operations: \<open>live_step t n a\<close> is the number
  of spawned and not yet joined threads of target \<open>t\<close> after operation \<open>a\<close> when it was
  \<open>n\<close> before, and \<open>live_max t n acts\<close> the largest number reached while \<open>acts\<close> are
  performed. \<open>stored_threads dev t\<close> is the number of threads that the session holds for
  \<open>t\<close> in its animation table.
\<close>

fun live_step :: "thread_id \<Rightarrow> nat \<Rightarrow> thread_action \<Rightarrow> nat" where
  "live_step t n (Spawn t') = (if t' = t then n + 1 else n)"
| "live_step t n (Join t') = (if t' = t then n - 1 else n)"
| "live_step t n (RequestStop t') = n"

fun live_max :: "thread_id \<Rightarrow> nat \<Rightarrow> thread_action list \<Rightarrow> nat" where
  "live_max t n [] = n"
| "live_max t n (a # acts) = max n (live_max t (live_step t n a) acts)"

fun stored_threads :: "MXKeypadDevice \<Rightarrow> thread_id \<Rightarrow> nat" where
  "stored_threads dev (KeyAnimationThread k) =
     (case animations dev k of
        None \<Rightarrow> 0
      | Some a \<Rightarrow> (if animation_thread a then 1 else 0))"
| "stored_threads dev ScreenAnimationThread =
     (case screen_animation dev of
        None \<Rightarrow> 0
      | Some a \<Rightarrow> (if animation_thread a then 1 else 0))"
| "stored_threads dev MonitorThread = (if monitor_thread dev then 1 else 0)"

text \<open>A caller's sequence of animation calls on one session.\<close>

datatype animation_call =
    SetKeyGif int "u8 list" bool
  | SetKeyGifFromFile int string bool
  | SetScreenGif "u8 list" bool
  | SetScreenGifFromFile string bool
  | StopKeyAnimation int
  | StopScreenAnimation

fun animation_step ::
  "gif_decoder \<Rightarrow> gif_file_decoder \<Rightarrow> MXKeypadDevice \<Rightarrow> animation_call \<Rightarrow>
     MXKeypadDevice \<times> thread_action list" where
  "animation_step dec decf dev (SetKeyGif k gifData l) = snd (setKeyGif dec dev k gifData l)"
| "animation_step dec decf dev (SetKeyGifFromFile k gifPath l) =
     snd (setKeyGifFromFile decf dev k gifPath l)"
| "animation_step dec decf dev (SetScreenGif gifData l) = snd (setScreenGif dec dev gifData l)"
| "animation_step dec decf dev (SetScreenGifFromFile gifPath l) =
     snd (setScreenGifFromFile decf dev gifPath l)"
| "animation_step dec decf dev (StopKeyAnimation k) = stopKeyAnimation dev k"
| "animation_step dec decf dev StopScreenAnimation = stopScreenAnimation dev"

fun animation_calls ::
  "gif_decoder \<Rightarrow> gif_file_decoder \<Rightarrow> MXKeypadDevice \<Rightarrow> animation_call list \<Rightarrow>
     MXKeypadDevice \<times> thread_action list" where
  "animation_calls dec decf dev [] = (dev, [])"
| "animation_calls dec decf dev (c # cs) =
     (let (dev', acts) = animation_step dec decf dev c;
          (dev'', acts') = animation_calls dec decf dev' cs
      in (dev'', acts @ acts'))"

section \<open>Properties of the packetizer\<close>

declare subsequentPackets.simps [simp del]

lemma subsequentPackets_stop: "subsequentPackets d h 0 off part acc = acc"
  by (subst subsequentPackets.simps) simp

lemma subsequentPackets_step:
  "0 < r \<Longrightarrow>
   subsequentPackets d h r off part acc =
     subsequentPackets d (h[4 := generateWritePacketByte part False (r \<le> 4090)])
       (r - min r 4090) (off + min r 4090) (part + 1)
       (acc @ [memcpy (memcpy (replicate 4095 0) 0
                 (h[4 := generateWritePacketByte part False (r \<le> 4090)])) 5
                 (take (min r 4090) (drop off d))])"
  by (subst subsequentPackets.simps)
     (simp add: Let_def MAX_PACKET_SIZE_def SUBSEQUENT_HEADER_def)

lemma subsequentPackets_acc:
  "subsequentPackets d h r off part acc = acc @ subsequentPackets d h r off part []"
proof (induction r arbitrary: h off part acc rule: less_induct)
  case (less r)
  show ?case
  proof (cases "r = 0")
    case True
    then show ?thesis by (simp add: subsequentPackets_stop)
  next
    case False
    then have pos: "0 < r" by simp
    then have dec: "r - min r 4090 < r" by simp
    let ?h = "h[4 := generateWritePacketByte part False (r \<le> 4090)]"
    let ?p = "memcpy (memcpy (replicate 4095 0) 0 ?h) 5 (take (min r 4090) (drop off d))"
    let ?rest = "subsequentPackets d ?h (r - min r 4090) (off + min r 4090) (part + 1)"
    have a: "subsequentPackets d h r off part acc = ?rest (acc @ [?p])"
      by (rule subsequentPackets_step [OF pos])
    have b: "subsequentPackets d h r off part [] = ?rest [?p]"
      using subsequentPackets_step [OF pos, of d h off part "[]"] by simp
    have c: "?rest (acc @ [?p]) = (acc @ [?p]) @ ?rest []"
      by (rule less.IH [OF dec])
    have e: "?rest [?p] = [?p] @ ?rest []"
      by (rule less.IH [OF dec])
    show ?thesis
      unfolding a b c by (subst e) simp
  qed
qed

lemma replicate20: "replicate 20 (0::u8) = [0,0,0,0,0,0,0,0,0,0,0,0,0,0,0,0,0,0,0,0]"
  by (simp add: numeral_eq_Suc)

lemma memcpy_zero_buffer:
  "length h \<le> n \<Longrightarrow> memcpy (replicate n 0) 0 h = h @ replicate (n - length h) 0"
  by (simp add: memcpy_def)

lemma memcpy_after_header:
  "length c \<le> m \<Longrightarrow> k = length h \<Longrightarrow>
   memcpy (h @ replicate m 0) k c = h @ c @ replicate (m - length c) 0"
  by (simp add: memcpy_def)

lemma length_firstHeader: "length (firstHeader c x y w h n) = 20"
  by (simp add: firstHeader_def)

lemma memcpy_firstHeader:
  "memcpy (replicate 4095 0) 0 (firstHeader c x y w h n) =
     firstHeader c x y w h n @ replicate 4075 0"
  by (simp add: memcpy_zero_buffer length_firstHeader)

lemma memcpy_firstHeader_payload:
  "length p \<le> 4075 \<Longrightarrow>
   memcpy (firstHeader c x y w h n @ replicate 4075 0) 20 p =
     firstHeader c x y w h n @ p @ replicate (4075 - length p) 0"
  by (rule memcpy_after_header) (simp_all add: length_firstHeader)

lemma subsequent_header_init:
  "memcpy (replicate SUBSEQUENT_HEADER 0) 0 PACKET_BASE_HEADER = [0x14, 0xff, 0x02, 0x2b, 0]"
  by (simp add: memcpy_def SUBSEQUENT_HEADER_def PACKET_BASE_HEADER_def numeral_eq_Suc)

lemma raw_unfold:
  "generateRawImagePackets x y w h d =
     (firstHeader (generateWritePacketByte 1 True (length d \<le> 4075)) x y w h (length d)
        @ take (min (length d) 4075) d @ replicate (4075 - min (length d) 4075) 0)
     # subsequentPackets d [0x14, 0xff, 0x02, 0x2b, 0] (length d - min (length d) 4075)
         (min (length d) 4075) 2 []"
proof -
  let ?c = "generateWritePacketByte 1 True (length d \<le> MAX_PACKET_SIZE - PACKET1_HEADER)"
  let ?hd = "firstHeader ?c x y w h (length d)"
  let ?p1 = "?hd @ take (min (length d) 4075) d @ replicate (4075 - min (length d) 4075) 0"
  have H: "(memcpy ((memcpy (replicate PACKET1_HEADER 0) 0 PACKET_BASE_HEADER)[4 := ?c]) 5
              PACKET1_GEOMETRY)
            [9 := ucast (drop_bit 8 x AND 0xff), 10 := ucast (x AND 0xff),
             11 := ucast (drop_bit 8 y AND 0xff), 12 := ucast (y AND 0xff),
             13 := ucast (drop_bit 8 w AND 0xff), 14 := ucast (w AND 0xff),
             15 := ucast (drop_bit 8 h AND 0xff), 16 := ucast (h AND 0xff),
             18 := of_nat (drop_bit 8 (length d) AND 0xff),
             19 := of_nat (length d AND 0xff)] = ?hd"
    by (simp add: memcpy_def replicate20 firstHeader_def PACKET_BASE_HEADER_def
        PACKET1_GEOMETRY_def PACKET1_HEADER_def)
  have "generateRawImagePackets x y w h d =
          subsequentPackets d [0x14, 0xff, 0x02, 0x2b, 0] (length d - min (length d) 4075)
            (min (length d) 4075) 2 [?p1]"
    unfolding generateRawImagePackets_def Let_def H subsequent_header_init
    by (simp add: MAX_PACKET_SIZE_def PACKET1_HEADER_def memcpy_firstHeader
        memcpy_firstHeader_payload)
  then show ?thesis
    by (subst (asm) subsequentPackets_acc) (simp add: MAX_PACKET_SIZE_def PACKET1_HEADER_def)
qed

lemma loop_unfold:
  assumes "0 < r" and "off + r \<le> length d"
  shows "subsequentPackets d [0x14, 0xff, 0x02, 0x2b, b] r off part [] =
     ([0x14, 0xff, 0x02, 0x2b, generateWritePacketByte part False (r \<le> 4090)]
        @ take (min r 4090) (drop off d) @ replicate (4090 - min r 4090) 0)
     # subsequentPackets d [0x14, 0xff, 0x02, 0x2b, generateWritePacketByte part False (r \<le> 4090)]
         (r - min r 4090) (off + min r 4090) (part + 1) []"
proof -
  let ?h = "[0x14, 0xff, 0x02, 0x2b, generateWritePacketByte part False (r \<le> 4090)]"
  let ?c = "take (min r 4090) (drop off d)"
  have lc: "length ?c = min r 4090"
    using assms by simp
  have m0: "memcpy (replicate 4095 0) 0 ?h = ?h @ replicate 4090 0"
    by (simp add: memcpy_zero_buffer)
  have m1: "memcpy (?h @ replicate 4090 0) 5 ?c = ?h @ ?c @ replicate (4090 - min r 4090) 0"
    using memcpy_after_header [of ?c 4090 5 ?h] lc by simp
  have "subsequentPackets d [0x14, 0xff, 0x02, 0x2b, b] r off part [] =
          subsequentPackets d ?h (r - min r 4090) (off + min r 4090) (part + 1)
            [?h @ ?c @ replicate (4090 - min r 4090) 0]"
    using subsequentPackets_step [OF assms(1), of d "[0x14, 0xff, 0x02, 0x2b, b]" off part "[]"]
      m0 m1
    by simp
  then show ?thesis
    by (subst (asm) subsequentPackets_acc) simp
qed

lemma ceil_div_step:
  assumes "0 < (r::nat)"
  shows "Suc ((r - min r 4090 + 4089) div 4090) = (r + 4089) div 4090"
proof (cases "r \<le> 4090")
  case True
  have "(r + 4089) div 4090 = 1"
    by (rule div_nat_eqI) (use assms True in simp_all)
  with True show ?thesis by simp
next
  case False
  then have "(r + 4089) div 4090 = Suc ((r + 4089 - 4090) div 4090)"
    by (simp add: le_div_geq)
  with False show ?thesis by simp
qed

lemma loop_length:
  "off + r \<le> length d \<Longrightarrow>
   length (subsequentPackets d [0x14, 0xff, 0x02, 0x2b, b] r off part []) = (r + 4089) div 4090"
proof (induction r arbitrary: b off part rule: less_induct)
  case (less r)
  show ?case
  proof (cases "r = 0")
    case True
    then show ?thesis by (simp add: subsequentPackets_stop)
  next
    case False
    then have pos: "0 < r" by simp
    have dec: "r - min r 4090 < r" using pos by simp
    have inb: "off + min r 4090 + (r - min r 4090) \<le> length d" using less.prems by simp
    have "length (subsequentPackets d [0x14, 0xff, 0x02, 0x2b, b] r off part []) =
            Suc ((r - min r 4090 + 4089) div 4090)"
      by (simp only: loop_unfold [OF pos less.prems] less.IH [OF dec inb] list.size length_Cons)
    also have "\<dots> = (r + 4089) div 4090"
      by (rule ceil_div_step [OF pos])
    finally show ?thesis .
  qed
qed

lemma count_gt_one: "Suc j < (r + 4089) div 4090 \<Longrightarrow> 4090 < (r::nat)"
proof (rule ccontr)
  assume a: "Suc j < (r + 4089) div 4090" and b: "\<not> 4090 < r"
  have "(r + 4089) div 4090 \<le> (4090 + 4089) div 4090"
    by (rule div_le_mono) (use b in simp)
  then show False using a by simp
qed

lemma count_pos: "j < (r + 4089) div 4090 \<Longrightarrow> 0 < (r::nat)"
  by (rule ccontr) simp

lemma loop_nth:
  "j < (r + 4089) div 4090 \<Longrightarrow> off + r \<le> length d \<Longrightarrow>
   subsequentPackets d [0x14, 0xff, 0x02, 0x2b, b] r off part [] ! j =
     [0x14, 0xff, 0x02, 0x2b, generateWritePacketByte (part + int j) False (r \<le> (j + 1) * 4090)]
       @ take (min (r - j * 4090) 4090) (drop (off + j * 4090) d)
       @ replicate (4090 - min (r - j * 4090) 4090) 0"
proof (induction j arbitrary: r b off part)
  case 0
  have pos: "0 < r" using "0.prems"(1) by (rule count_pos)
  show ?case
    by (simp add: loop_unfold [OF pos "0.prems"(2)])
next
  case (Suc j)
  have big: "4090 < r" using Suc.prems(1) by (rule count_gt_one)
  then have pos: "0 < r" by simp
  have m: "min r 4090 = 4090" using big by simp
  have cnt: "j < (r - 4090 + 4089) div 4090"
    using Suc.prems(1) ceil_div_step [OF pos] m by simp
  have inb: "off + 4090 + (r - 4090) \<le> length d" using Suc.prems(2) big by simp
  have e1: "(r - 4090 \<le> (j + 1) * 4090) = (r \<le> (Suc j + 1) * 4090)"
    using big by auto
  have e2: "r - 4090 - j * 4090 = r - Suc j * 4090" by simp
  have e3: "off + 4090 + j * 4090 = off + Suc j * 4090" by simp
  have e4: "part + 1 + int j = part + int (Suc j)" by simp
  show ?case
    by (simp only: loop_unfold [OF pos Suc.prems(2)] m nth_Cons_Suc Suc.IH [OF cnt inb]
          e1 e2 e3 e4)
qed

lemma loop_payloads:
  "off + r \<le> length d \<Longrightarrow>
   concat (payloadsFrom 5 r (subsequentPackets d [0x14, 0xff, 0x02, 0x2b, b] r off part [])) =
     take r (drop off d)"
proof (induction r arbitrary: b off part rule: less_induct)
  case (less r)
  show ?case
  proof (cases "r = 0")
    case True
    then show ?thesis by (simp add: subsequentPackets_stop)
  next
    case False
    then have pos: "0 < r" by simp
    have dec: "r - min r 4090 < r" using pos by simp
    have inb: "off + min r 4090 + (r - min r 4090) \<le> length d" using less.prems by simp
    let ?m = "min r 4090"
    let ?c = "take ?m (drop off d)"
    have lc: "length ?c = ?m" using less.prems by simp
    have "concat (payloadsFrom 5 r (subsequentPackets d [0x14, 0xff, 0x02, 0x2b, b] r off part []))
            = ?c @ take (r - ?m) (drop (off + ?m) d)"
      using lc
      by (simp add: loop_unfold [OF pos less.prems] less.IH [OF dec inb] Let_def
            MAX_PACKET_SIZE_def SUBSEQUENT_HEADER_def)
    also have "\<dots> = take (?m + (r - ?m)) (drop off d)"
      by (simp only: take_add drop_drop add.commute)
    also have "\<dots> = take r (drop off d)" by simp
    finally show ?thesis .
  qed
qed

lemma lcd_bytes:
  "(word_of_nat (drop_bit 8 LCD_SIZE AND 0xff) :: u8) = ucast (drop_bit 8 (118 :: u16) AND 0xff)"
  "(word_of_nat (LCD_SIZE AND 0xff) :: u8) = ucast ((118 :: u16) AND 0xff)"
  by (simp_all add: LCD_SIZE_def)

lemma key_is_raw:
  "generateImagePackets keyIndex d = generateRawImagePackets (keyX keyIndex) (keyY keyIndex) 118 118 d"
  unfolding generateImagePackets_def generateRawImagePackets_def Let_def keyX_def keyY_def lcd_bytes
  by (rule refl)

lemma raw_length:
  "length (generateRawImagePackets x y w h d) = 1 + (length d - 4075 + 4089) div 4090"
proof -
  have "min (length d) 4075 + (length d - min (length d) 4075) \<le> length d" by simp
  then show ?thesis
    by (simp add: raw_unfold loop_length min_def)
qed

lemma raw_totalPackets:
  "length (generateRawImagePackets x y w h d) = totalPackets (length d)"
  by (simp add: raw_length totalPackets_def MAX_PACKET_SIZE_def PACKET1_HEADER_def
      SUBSEQUENT_HEADER_def)

lemma ceil_div_real: "(n + 4089) div 4090 = nat \<lceil>real n / 4090\<rceil>"
proof -
  define q where "q = (n + 4089) div 4090"
  define m where "m = (n + 4089) mod 4090"
  have split: "n + 4089 = 4090 * q + m"
    unfolding q_def m_def by simp
  have mlt: "m < 4090"
    unfolding m_def by simp
  have up: "n \<le> 4090 * q" using split mlt by linarith
  have lo: "4090 * q < n + 4090" using split by linarith
  have "real n \<le> real (4090 * q)"
    using up by (simp only: of_nat_le_iff)
  then have a: "real n / 4090 \<le> of_int (int q)" by simp
  have "real (4090 * q) < real (n + 4090)"
    using lo by (simp only: of_nat_less_iff)
  then have b: "of_int (int q) - 1 < real n / 4090" by simp
  have "\<lceil>real n / 4090\<rceil> = int q"
    using b a by (rule ceiling_unique)
  then show ?thesis
    unfolding q_def by simp
qed



lemma spec_count_formula:
  "1 + (n - 4075 + 4089) div 4090 =
     1 + nat \<lceil>max 0 (real n - (4095 - 20)) / (4095 - 5)\<rceil>"
proof -
  have "max 0 (real n - (4095 - 20)) = real (n - 4075)"
    by (cases "4075 \<le> n") (simp_all add: of_nat_diff)
  then show ?thesis
    by (simp add: ceil_div_real)
qed

lemma ceil_le_iff: "((r::nat) + 4089) div 4090 \<le> k \<longleftrightarrow> r \<le> k * 4090"
proof -
  have "(r + 4089) div 4090 < Suc k \<longleftrightarrow> r + 4089 < Suc k * 4090"
    by (rule div_less_iff_less_mult) simp
  then show ?thesis by auto
qed

lemma last_flag_iff:
  assumes "j < ((r::nat) + 4089) div 4090"
  shows "r \<le> (j + 1) * 4090 \<longleftrightarrow> j + 1 = (r + 4089) div 4090"
  using assms ceil_le_iff [of r "j + 1"] by auto

lemma raw_nth_0:
  "generateRawImagePackets x y w h d ! 0 =
     firstHeader (generateWritePacketByte 1 True (length d \<le> 4075)) x y w h (length d)
       @ take (min (length d) 4075) d @ replicate (4075 - min (length d) 4075) 0"
  by (simp add: raw_unfold)

lemma raw_nth_Suc:
  assumes "Suc j < length (generateRawImagePackets x y w h d)"
  shows "generateRawImagePackets x y w h d ! Suc j =
     [0x14, 0xff, 0x02, 0x2b,
      generateWritePacketByte (int j + 2) False (length d - 4075 \<le> (j + 1) * 4090)]
       @ take (min (length d - 4075 - j * 4090) 4090) (drop (4075 + j * 4090) d)
       @ replicate (4090 - min (length d - 4075 - j * 4090) 4090) 0"
proof -
  have cnt: "j < (length d - 4075 + 4089) div 4090"
    using assms by (simp add: raw_length)
  then have "0 < length d - 4075" by (rule count_pos)
  then have m: "min (length d) 4075 = 4075" by simp
  have inb: "4075 + (length d - 4075) \<le> length d" using m by simp
  show ?thesis
    using loop_nth [OF cnt inb, of 0 2]
    by (simp add: raw_unfold m add.commute)
qed

lemma raw_control_byte:
  assumes "i < length (generateRawImagePackets x y w h d)"
  shows "generateRawImagePackets x y w h d ! i ! 4 =
     generateWritePacketByte (int i + 1) (i = 0)
       (i + 1 = length (generateRawImagePackets x y w h d))"
proof (cases i)
  case 0
  have l: "(length d \<le> 4075) = (0 + 1 = length (generateRawImagePackets x y w h d))"
    using ceil_le_iff [of "length d - 4075" 0] by (auto simp: raw_length)
  have "generateRawImagePackets x y w h d ! 0 ! 4 =
          generateWritePacketByte 1 True (length d \<le> 4075)"
    by (simp add: raw_nth_0 firstHeader_def)
  then show ?thesis
    unfolding 0 l by simp
next
  case (Suc j)
  have cnt: "j < (length d - 4075 + 4089) div 4090"
    using assms Suc by (simp add: raw_length)
  have l: "(length d - 4075 \<le> (j + 1) * 4090) =
             (Suc j + 1 = length (generateRawImagePackets x y w h d))"
    using last_flag_iff [OF cnt] by (auto simp: raw_length)
  have e: "int j + 2 = int (Suc j) + 1" by simp
  have "generateRawImagePackets x y w h d ! Suc j ! 4 =
          generateWritePacketByte (int j + 2) False (length d - 4075 \<le> (j + 1) * 4090)"
    by (simp only: raw_nth_Suc [OF assms [unfolded Suc]]) simp
  then show ?thesis
    unfolding Suc l e by simp
qed

lemma raw_payloads:
  "concat (packetPayloads (length d) (generateRawImagePackets x y w h d)) = d"
proof -
  let ?m = "min (length d) 4075"
  have inb: "?m + (length d - ?m) \<le> length d" by simp
  have "concat (packetPayloads (length d) (generateRawImagePackets x y w h d)) =
          take ?m d @ take (length d - ?m) (drop ?m d)"
    by (simp add: packetPayloads_def raw_unfold Let_def MAX_PACKET_SIZE_def PACKET1_HEADER_def
          SUBSEQUENT_HEADER_def length_firstHeader loop_payloads [OF inb])
  also have "\<dots> = take (?m + (length d - ?m)) d"
    by (simp only: take_add)
  also have "\<dots> = d" by simp
  finally show ?thesis .
qed

lemma raw_packet_length:
  assumes "i < length (generateRawImagePackets x y w h d)"
  shows "length (generateRawImagePackets x y w h d ! i) = 4095"
proof (cases i)
  case 0
  show ?thesis
    unfolding 0 raw_nth_0 by (simp add: length_firstHeader)
next
  case (Suc j)
  have cnt: "j < (length d - 4075 + 4089) div 4090"
    using assms Suc by (simp add: raw_length)
  have big: "4075 + j * 4090 < length d"
    using cnt ceil_le_iff [of "length d - 4075" j] by simp
  show ?thesis
    unfolding Suc raw_nth_Suc [OF assms [unfolded Suc]] using big by simp
qed

lemma sum_list_const:
  "(\<And>i. i < length xs \<Longrightarrow> f (xs ! i) = c) \<Longrightarrow> sum_list (map f xs) = length xs * (c::nat)"
proof (induction xs)
  case Nil
  then show ?case by simp
next
  case (Cons a xs)
  have "f a = c" using Cons.prems [of 0] by simp
  moreover have "sum_list (map f xs) = length xs * c"
    by (rule Cons.IH) (use Cons.prems [of "Suc _"] in simp)
  ultimately show ?case by simp
qed

lemma raw_total_size:
  "sum_list (map length (generateRawImagePackets x y w h d)) =
     length (generateRawImagePackets x y w h d) * 4095"
  by (rule sum_list_const) (rule raw_packet_length)

lemma and_255_nat: "(n::nat) AND 255 = n mod 256"
proof -
  have "n AND mask 8 = take_bit 8 n" by (simp only: take_bit_eq_mask)
  then show ?thesis by (simp add: take_bit_eq_mod mask_eq_exp_minus_1)
qed

lemma length_field_bytes:
  "unat (word_of_nat (drop_bit 8 n AND 0xff) :: u8) * 256 + unat (word_of_nat (n AND 0xff) :: u8)
     = n mod 65536"
proof -
  have a: "unat (word_of_nat (drop_bit 8 n AND 0xff) :: u8) = (n div 256) mod 256"
    by (simp add: and_255_nat unat_of_nat drop_bit_eq_div)
  have b: "unat (word_of_nat (n AND 0xff) :: u8) = n mod 256"
    by (simp add: and_255_nat unat_of_nat)
  have "n mod (256 * 256) = 256 * (n div 256 mod 256) + n mod 256"
    by (rule mod_mult2_eq)
  then show ?thesis
    unfolding a b by simp
qed

lemma payloadsFrom_length: "length (payloadsFrom hdr r ps) = length ps"
  by (induction ps arbitrary: hdr r) (simp_all add: Let_def)

lemma loop_payloads_nth:
  "j < (r + 4089) div 4090 \<Longrightarrow> off + r \<le> length d \<Longrightarrow>
   payloadsFrom 5 r (subsequentPackets d [0x14, 0xff, 0x02, 0x2b, b] r off part []) ! j =
     take (min (r - j * 4090) 4090) (drop (off + j * 4090) d)"
proof (induction j arbitrary: r b off part)
  case 0
  have pos: "0 < r" using "0.prems"(1) by (rule count_pos)
  have lc: "length (take (min r 4090) (drop off d)) = min r 4090"
    using "0.prems"(2) by simp
  show ?case
    using lc
    by (simp add: loop_unfold [OF pos "0.prems"(2)] Let_def MAX_PACKET_SIZE_def
          SUBSEQUENT_HEADER_def)
next
  case (Suc j)
  have big: "4090 < r" using Suc.prems(1) by (rule count_gt_one)
  then have pos: "0 < r" by simp
  have m: "min r 4090 = 4090" using big by simp
  have cnt: "j < (r - 4090 + 4089) div 4090"
    using Suc.prems(1) ceil_div_step [OF pos] m by simp
  have inb: "off + 4090 + (r - 4090) \<le> length d" using Suc.prems(2) big by simp
  have e2: "r - 4090 - j * 4090 = r - Suc j * 4090" by simp
  have e3: "off + 4090 + j * 4090 = off + Suc j * 4090" by simp
  have "payloadsFrom 5 r (subsequentPackets d [0x14, 0xff, 0x02, 0x2b, b] r off part []) ! Suc j
         = payloadsFrom 5 (r - 4090)
             (subsequentPackets d
                [0x14, 0xff, 0x02, 0x2b, generateWritePacketByte part False (r \<le> 4090)]
                (r - 4090) (off + 4090) (part + 1) []) ! j"
    by (simp add: loop_unfold [OF pos Suc.prems(2)] m Let_def MAX_PACKET_SIZE_def
          SUBSEQUENT_HEADER_def)
  then show ?case
    by (simp only: Suc.IH [OF cnt inb] e2 e3)
qed

lemma raw_payload_nth_0:
  "packetPayloads (length d) (generateRawImagePackets x y w h d) ! 0 = take (min (length d) 4075) d"
  by (simp add: packetPayloads_def raw_unfold Let_def MAX_PACKET_SIZE_def PACKET1_HEADER_def
        length_firstHeader)

lemma raw_payload_nth_Suc:
  assumes "Suc j < length (generateRawImagePackets x y w h d)"
  shows "packetPayloads (length d) (generateRawImagePackets x y w h d) ! Suc j =
           take (min (length d - 4075 - j * 4090) 4090) (drop (4075 + j * 4090) d)"
proof -
  have cnt: "j < (length d - 4075 + 4089) div 4090"
    using assms by (simp add: raw_length)
  then have "0 < length d - 4075" by (rule count_pos)
  then have m: "min (length d) 4075 = 4075" by simp
  have inb: "4075 + (length d - 4075) \<le> length d" using m by simp
  show ?thesis
    using loop_payloads_nth [OF cnt inb, of 0 2]
    by (simp add: packetPayloads_def raw_unfold m Let_def MAX_PACKET_SIZE_def PACKET1_HEADER_def
          SUBSEQUENT_HEADER_def)
qed

lemma raw_packet_layout:
  assumes "i < length (generateRawImagePackets x y w h d)"
  shows "generateRawImagePackets x y w h d ! i =
           take (headerSize i) (generateRawImagePackets x y w h d ! i)
           @ packetPayloads (length d) (generateRawImagePackets x y w h d) ! i
           @ replicate (4095 - headerSize i
               - length (packetPayloads (length d) (generateRawImagePackets x y w h d) ! i)) 0"
proof (cases i)
  case 0
  show ?thesis
    unfolding 0 raw_payload_nth_0 raw_nth_0
    by (simp add: headerSize_def PACKET1_HEADER_def length_firstHeader)
next
  case (Suc j)
  have cnt: "j < (length d - 4075 + 4089) div 4090"
    using assms Suc by (simp add: raw_length)
  have big: "4075 + j * 4090 < length d"
    using cnt ceil_le_iff [of "length d - 4075" j] by simp
  show ?thesis
    unfolding Suc raw_payload_nth_Suc [OF assms [unfolded Suc]] raw_nth_Suc [OF assms [unfolded Suc]]
    using big by (simp add: headerSize_def SUBSEQUENT_HEADER_def)
qed

lemma raw_length_field:
  "unat (generateRawImagePackets x y w h d ! 0 ! 18) * 256
     + unat (generateRawImagePackets x y w h d ! 0 ! 19) = length d mod 65536"
  unfolding raw_nth_0
  by (simp add: firstHeader_def length_field_bytes)

lemma generateWritePacketByte_value:
  "generateWritePacketByte index isFirst isLast =
     word_of_int (index OR 0x20) OR (if isFirst then 0x80 else 0) OR (if isLast then 0x40 else 0)"
  by (simp add: generateWritePacketByte_def Let_def or.assoc)

lemma small_index_high_bits:
  assumes "0 \<le> (k::int)" and "k < 64" and "6 \<le> n"
  shows "\<not> bit k n"
proof -
  have "k < 2 ^ n"
    using assms(2) power_increasing [OF assms(3), of "2::int"] by simp
  then have "k div 2 ^ n = 0"
    using assms(1) by simp
  then show ?thesis
    by (simp add: bit_iff_odd)
qed

lemma generateWritePacketByte_flags:
  assumes "0 \<le> index" and "index < 64"
  shows "bit (generateWritePacketByte index isFirst isLast) 7 \<longleftrightarrow> isFirst"
    and "bit (generateWritePacketByte index isFirst isLast) 6 \<longleftrightarrow> isLast"
    and "generateWritePacketByte index isFirst isLast AND 0x3f = word_of_int (index OR 0x20)"
proof -
  have b7: "\<not> bit index 7" and b6: "\<not> bit index 6"
    using assms by (simp_all add: small_index_high_bits)
  show "bit (generateWritePacketByte index isFirst isLast) 7 \<longleftrightarrow> isFirst"
    using b7 by (simp add: generateWritePacketByte_value bit_or_iff bit_word_of_int_iff)
  show "bit (generateWritePacketByte index isFirst isLast) 6 \<longleftrightarrow> isLast"
    using b6 by (simp add: generateWritePacketByte_value bit_or_iff bit_word_of_int_iff)
  show "generateWritePacketByte index isFirst isLast AND 0x3f = word_of_int (index OR 0x20)"
  proof (rule bit_word_eqI)
    fix n
    assume "n < LENGTH(8)"
    then have "n \<in> {0, 1, 2, 3, 4, 5, 6, 7}" by auto
    then show "bit (generateWritePacketByte index isFirst isLast AND 0x3f) n
            \<longleftrightarrow> bit (word_of_int (index OR 0x20) :: u8) n"
      unfolding generateWritePacketByte_value
      using b6 b7
      by (auto simp: bit_and_iff bit_or_iff bit_word_of_int_iff)
  qed
qed

section \<open>Claims about the image packetizer\<close>

text \<open>
  Claim C2. For every rectangle (and every key index) and every image buffer of \<open>N\<close> bytes,
  both generators produce exactly \<open>1 + ceil (max 0 (N - (4095 - 20)) / (4095 - 5))\<close> packets;
  the payload bytes the packets carry after their headers (\<open>packetPayloads\<close>) concatenate to
  the input buffer; and the sizes of the packets add up to the packet count times 4095.
\<close>

theorem packetizer_count_payload_total:
  "length (generateRawImagePackets x y w h d) =
     1 + nat \<lceil>max 0 (real (length d) - (4095 - 20)) / (4095 - 5)\<rceil>
   \<and> concat (packetPayloads (length d) (generateRawImagePackets x y w h d)) = d
   \<and> sum_list (map length (generateRawImagePackets x y w h d)) =
       length (generateRawImagePackets x y w h d) * 4095
   \<and> length (generateImagePackets keyIndex d) =
     1 + nat \<lceil>max 0 (real (length d) - (4095 - 20)) / (4095 - 5)\<rceil>
   \<and> concat (packetPayloads (length d) (generateImagePackets keyIndex d)) = d
   \<and> sum_list (map length (generateImagePackets keyIndex d)) =
       length (generateImagePackets keyIndex d) * 4095"
  unfolding key_is_raw
  using raw_length spec_count_formula raw_payloads raw_total_size
  by (simp only: simp_thms)

text \<open>
  Claim C3, amended. The packet with 1-based part index \<open>i + 1\<close> carries at header offset 4
  the low eight bits of \<open>(i + 1) | 0x20\<close>, or-ed with \<open>0x80\<close> on the first packet and with
  \<open>0x40\<close> on the last one. In a sequence of at most 63 packets, bit \<open>0x80\<close> (bit 7) is set
  on exactly the first packet, bit \<open>0x40\<close> (bit 6) on exactly the last packet, and the low six
  bits are \<open>(i + 1) | 0x20\<close>; a single packet therefore has both flags.
\<close>

theorem sequence_control_bytes:
  assumes "pkts = generateRawImagePackets x y w h d \<or> pkts = generateImagePackets keyIndex d"
    and "i < length pkts"
  shows "pkts ! i ! 4 =
           word_of_int ((int i + 1) OR 0x20) OR (if i = 0 then 0x80 else 0)
             OR (if i + 1 = length pkts then 0x40 else 0)
         \<and> (length pkts \<le> 63 \<longrightarrow>
              (bit (pkts ! i ! 4) 7 \<longleftrightarrow> i = 0)
            \<and> (bit (pkts ! i ! 4) 6 \<longleftrightarrow> i + 1 = length pkts)
            \<and> pkts ! i ! 4 AND 0x3f = word_of_int ((int i + 1) OR 0x20))"
proof -
  obtain x' y' w' h' where raw: "pkts = generateRawImagePackets x' y' w' h' d"
    using assms(1) key_is_raw by blast
  have c: "pkts ! i ! 4 = generateWritePacketByte (int i + 1) (i = 0) (i + 1 = length pkts)"
    using assms(2) unfolding raw by (rule raw_control_byte)
  have "length pkts \<le> 63 \<Longrightarrow> int i + 1 < 64"
    using assms(2) by simp
  then show ?thesis
    unfolding c
    using generateWritePacketByte_flags [of "int i + 1" "i = 0" "i + 1 = length pkts"]
    by (simp add: generateWritePacketByte_value)
qed

text \<open>
  The theorem at a three-byte image, which gives a single packet: its control byte is
  \<open>0x21 | 0x80 | 0x40 = 0xE1\<close>.
\<close>

theorem sequence_control_bytes_witness:
  "generateRawImagePackets 23 6 434 434 [0xff, 0xd8, 0xff] ! 0 ! 4 = 0xE1
   \<and> bit (generateRawImagePackets 23 6 434 434 [0xff, 0xd8, 0xff] ! 0 ! 4) 7
   \<and> bit (generateRawImagePackets 23 6 434 434 [0xff, 0xd8, 0xff] ! 0 ! 4) 6
   \<and> generateRawImagePackets 23 6 434 434 [0xff, 0xd8, 0xff] ! 0 ! 4 AND 0x3f = 0x21
   \<and> generateImagePackets 4 [0xff, 0xd8, 0xff] ! 0 ! 4 = 0xE1"
proof -
  have l: "length (generateRawImagePackets 23 6 434 434 [0xff, 0xd8, 0xff]) = 1"
    by (simp add: raw_length)
  have l': "length (generateImagePackets 4 [0xff, 0xd8, 0xff]) = 1"
    by (simp add: key_is_raw raw_length)
  show ?thesis
    using sequence_control_bytes [of "generateRawImagePackets 23 6 434 434 [0xff, 0xd8, 0xff]"
        23 6 434 434 "[0xff, 0xd8, 0xff]" 4 0]
      sequence_control_bytes [of "generateImagePackets 4 [0xff, 0xd8, 0xff]"
        23 6 434 434 "[0xff, 0xd8, 0xff]" 4 0]
    by (simp add: l l')
qed

text \<open>
  Claim C3 as stated fails from the 64th packet on, where the part index reaches into the flag
  bits: a buffer of 261746 bytes gives 65 packets, and the 64th one, which is not the last,
  carries \<open>64 | 0x20 = 0x60\<close>, with bit \<open>0x40\<close> set.
\<close>

theorem sequence_control_counterexample:
  "63 < length (generateRawImagePackets 23 6 434 434 (replicate 261746 0))
   \<and> 63 + 1 \<noteq> length (generateRawImagePackets 23 6 434 434 (replicate 261746 0))
   \<and> bit (generateRawImagePackets 23 6 434 434 (replicate 261746 0) ! 63 ! 4) 6"
proof -
  have l: "length (generateRawImagePackets 23 6 434 434 (replicate 261746 0)) = 65"
    by (simp add: raw_length)
  have i: "63 < length (generateRawImagePackets 23 6 434 434 (replicate 261746 0))"
    by (simp add: l)
  show ?thesis
    by (simp add: raw_control_byte [OF i] l generateWritePacketByte_value)
qed

text \<open>
  Claim C8, amended. Every packet is exactly 4095 bytes long, and all its bytes after the header
  and the payload are zero. The big-endian 16-bit field at offsets 18 and 19 of the first packet
  holds the payload size \<open>N\<close> modulo 65536, which is \<open>N\<close> itself whenever \<open>N < 65536\<close>.
\<close>

theorem packets_padded_and_length_field:
  assumes "pkts = generateRawImagePackets x y w h d \<or> pkts = generateImagePackets keyIndex d"
    and "i < length pkts"
  shows "length (pkts ! i) = 4095
         \<and> drop (headerSize i + length (packetPayloads (length d) pkts ! i)) (pkts ! i) =
             replicate (4095 - headerSize i - length (packetPayloads (length d) pkts ! i)) 0
         \<and> unat (pkts ! 0 ! 18) * 256 + unat (pkts ! 0 ! 19) = length d mod 65536
         \<and> (length d < 65536 \<longrightarrow>
              unat (pkts ! 0 ! 18) * 256 + unat (pkts ! 0 ! 19) = length d)"
proof -
  obtain x' y' w' h' where raw: "pkts = generateRawImagePackets x' y' w' h' d"
    using assms(1) key_is_raw by blast
  let ?pl = "packetPayloads (length d) pkts ! i"
  have len: "length (pkts ! i) = 4095"
    using assms(2) unfolding raw by (rule raw_packet_length)
  have lay: "pkts ! i = take (headerSize i) (pkts ! i) @ ?pl
               @ replicate (4095 - headerSize i - length ?pl) 0"
    using assms(2) unfolding raw by (rule raw_packet_layout)
  have hs: "headerSize i \<le> 4095"
    by (simp add: headerSize_def PACKET1_HEADER_def SUBSEQUENT_HEADER_def)
  have "drop (headerSize i + length ?pl) (pkts ! i) =
          drop (headerSize i + length ?pl)
            (take (headerSize i) (pkts ! i) @ ?pl
               @ replicate (4095 - headerSize i - length ?pl) 0)"
    using lay by simp
  also have "\<dots> = replicate (4095 - headerSize i - length ?pl) 0"
    using len hs by simp
  finally have pad: "drop (headerSize i + length ?pl) (pkts ! i) =
      replicate (4095 - headerSize i - length ?pl) 0" .
  have fld: "unat (pkts ! 0 ! 18) * 256 + unat (pkts ! 0 ! 19) = length d mod 65536"
    unfolding raw by (rule raw_length_field)
  show ?thesis
    using len pad fld by simp
qed

text \<open>The theorem at a three-byte image: 20 header bytes, 3 payload bytes, 4072 zero bytes.\<close>

theorem packets_padded_and_length_field_witness:
  "length (generateRawImagePackets 23 6 434 434 [0xff, 0xd8, 0xff] ! 0) = 4095
   \<and> drop 23 (generateRawImagePackets 23 6 434 434 [0xff, 0xd8, 0xff] ! 0) = replicate 4072 0
   \<and> unat (generateRawImagePackets 23 6 434 434 [0xff, 0xd8, 0xff] ! 0 ! 18) * 256
       + unat (generateRawImagePackets 23 6 434 434 [0xff, 0xd8, 0xff] ! 0 ! 19) = 3"
proof -
  have l: "length (generateRawImagePackets 23 6 434 434 [0xff, 0xd8, 0xff]) = 1"
    by (simp add: raw_length)
  have n: "length [0xff, 0xd8, 0xff :: u8] = 3"
    by simp
  have p: "packetPayloads 3 (generateRawImagePackets 23 6 434 434 [0xff, 0xd8, 0xff]) ! 0
             = [0xff, 0xd8, 0xff]"
    using raw_payload_nth_0 [of "[0xff, 0xd8, 0xff]" 23 6 434 434] unfolding n by simp
  have i: "0 < length (generateRawImagePackets 23 6 434 434 [0xff, 0xd8, 0xff])"
    by (simp add: l)
  show ?thesis
    using packets_padded_and_length_field
      [of "generateRawImagePackets 23 6 434 434 [0xff, 0xd8, 0xff]"
        23 6 434 434 "[0xff, 0xd8, 0xff]" 0 0, OF _ i]
    unfolding n p
    by (simp add: headerSize_def PACKET1_HEADER_def)
qed

text \<open>
  Claim C8 as stated fails when the size does not fit in 16 bits: for a buffer of 65536 bytes
  the length field holds 0.
\<close>

theorem length_field_counterexample:
  "unat (generateRawImagePackets 23 6 434 434 (replicate 65536 0) ! 0 ! 18) * 256
     + unat (generateRawImagePackets 23 6 434 434 (replicate 65536 0) ! 0 ! 19)
   \<noteq> length (replicate 65536 (0 :: u8))"
  using raw_length_field [of 23 6 434 434 "replicate 65536 0"] by simp

section \<open>Claims about the input decoder\<close>

declare collect_pressed.simps [simp del]

lemma concat_map_if:
  "concat (map (\<lambda>x. if Q x then [f x] else []) xs) = map f (filter Q xs)"
  by (induction xs) simp_all

lemma concat_map_single: "concat (map (\<lambda>x. [f x]) xs) = map f xs"
  by (induction xs) simp_all

lemma filter_sorted_list_of_set:
  fixes A :: "u8 set"
  shows "filter Q (sorted_list_of_set A) = sorted_list_of_set {x \<in> A. Q x}"
proof (rule sorted_distinct_set_unique)
  show "sorted (filter Q (sorted_list_of_set A))"
    by (simp add: sorted_filter [where f = "\<lambda>x. x", simplified])
  show "distinct (filter Q (sorted_list_of_set A))" by simp
  show "sorted (sorted_list_of_set {x \<in> A. Q x})" by simp
  show "distinct (sorted_list_of_set {x \<in> A. Q x})" by simp
  show "set (filter Q (sorted_list_of_set A)) = set (sorted_list_of_set {x \<in> A. Q x})"
    by simp
qed

lemma monitor_report_grid:
  assumes "bytes_read \<ge> 7"
    and "report ! 0 = 0x13" and "report ! 1 = 0xff" and "report ! 2 = 0x02"
    and "report ! 3 = 0x00" and "report ! 5 = 0x01"
    and "event_callback dev"
  shows "monitor_report dev report bytes_read =
     (map press_event
        (sorted_list_of_set (collect_pressed report (nat bytes_read) 6 {} - pressed_buttons dev))
      @ map release_event
        (sorted_list_of_set (pressed_buttons dev - collect_pressed report (nat bytes_read) 6 {})),
      dev\<lparr>pressed_buttons := collect_pressed report (nat bytes_read) 6 {}\<rparr>)"
proof -
  have s1: "{x \<in> collect_pressed report (nat bytes_read) 6 {}. x \<notin> pressed_buttons dev}
              = collect_pressed report (nat bytes_read) 6 {} - pressed_buttons dev"
    by auto
  have s2: "{x \<in> pressed_buttons dev. x \<notin> collect_pressed report (nat bytes_read) 6 {}}
              = pressed_buttons dev - collect_pressed report (nat bytes_read) 6 {}"
    by auto
  show ?thesis
    using assms
    by (simp add: monitor_report_def Let_def deliver_def concat_map_if concat_map_single
          filter_sorted_list_of_set s1 s2 cong: if_cong)
qed

lemma press_event_fields:
  "press_event = (\<lambda>i. \<lparr>event_type = BUTTON_PRESS, button_code = i, pressed = True\<rparr>)"
  by (simp add: fun_eq_iff press_event_def)

lemma release_event_fields:
  "release_event = (\<lambda>i. \<lparr>event_type = BUTTON_RELEASE, button_code = i, pressed = False\<rparr>)"
  by (simp add: fun_eq_iff release_event_def)

text \<open>
  Claim C4. For a grid report (at least 7 bytes read, signature \<open>13 ff 02 00 .. 01\<close>) whose
  decoded set of pressed indices is \<open>C\<close>, with stored set \<open>P\<close> and a callback registered,
  the decoder hands the callback one press event for each index of \<open>C - P\<close>, then one release
  event for each index of \<open>P - C\<close>, and stores \<open>C\<close>. A press event has type
  \<open>BUTTON_PRESS\<close>, the index as its button code and \<open>pressed\<close> true; a release event has
  type \<open>BUTTON_RELEASE\<close>, the index as its button code and \<open>pressed\<close> false. When
  \<open>C = P\<close> there is no event and the state is unchanged.
\<close>

theorem grid_report_press_release_edges:
  assumes "bytes_read \<ge> 7"
    and "report ! 0 = 0x13" and "report ! 1 = 0xff" and "report ! 2 = 0x02"
    and "report ! 3 = 0x00" and "report ! 5 = 0x01"
    and "event_callback dev"
    and "C = collect_pressed report (nat bytes_read) 6 {}"
    and "P = pressed_buttons dev"
  shows "monitor_report dev report bytes_read =
           (map (\<lambda>i. \<lparr>event_type = BUTTON_PRESS, button_code = i, pressed = True\<rparr>)
               (sorted_list_of_set (C - P))
              @ map (\<lambda>i. \<lparr>event_type = BUTTON_RELEASE, button_code = i, pressed = False\<rparr>)
                  (sorted_list_of_set (P - C)),
            dev\<lparr>pressed_buttons := C\<rparr>)
         \<and> (C = P \<longrightarrow> monitor_report dev report bytes_read = ([], dev))"
proof -
  have eq: "monitor_report dev report bytes_read =
           (map (\<lambda>i. \<lparr>event_type = BUTTON_PRESS, button_code = i, pressed = True\<rparr>)
               (sorted_list_of_set (C - P))
              @ map (\<lambda>i. \<lparr>event_type = BUTTON_RELEASE, button_code = i, pressed = False\<rparr>)
                  (sorted_list_of_set (P - C)),
            dev\<lparr>pressed_buttons := C\<rparr>)"
    unfolding assms(8,9)
    using monitor_report_grid [OF assms(1-7), unfolded press_event_fields release_event_fields]
    by simp
  have "C = P \<Longrightarrow> dev\<lparr>pressed_buttons := C\<rparr> = dev"
    using assms(9) by simp
  then show ?thesis
    using eq by simp
qed

text \<open>
  The theorem on three reports: \<open>{0, 1}\<close> held and codes 2, 3, 1 reported gives one press
  of 2; \<open>{0, 1, 2}\<close> held and code 2 reported gives releases of 0 and 2; the same report again
  gives nothing.
\<close>

theorem grid_report_press_release_edges_witness:
  "monitor_report (new_device\<lparr>event_callback := True, pressed_buttons := {0, 1}\<rparr>)
     (report_buffer [0x13, 0xff, 0x02, 0x00, 0x00, 0x01, 2, 3, 1]) 64 =
     ([\<lparr>event_type = BUTTON_PRESS, button_code = 2, pressed = True\<rparr>],
      new_device\<lparr>event_callback := True, pressed_buttons := {0, 1, 2}\<rparr>)
   \<and> monitor_report (new_device\<lparr>event_callback := True, pressed_buttons := {0, 1, 2}\<rparr>)
     (report_buffer [0x13, 0xff, 0x02, 0x00, 0x00, 0x01, 2]) 64 =
     ([\<lparr>event_type = BUTTON_RELEASE, button_code = 0, pressed = False\<rparr>,
      \<lparr>event_type = BUTTON_RELEASE, button_code = 2, pressed = False\<rparr>],
      new_device\<lparr>event_callback := True, pressed_buttons := {1}\<rparr>)
   \<and> monitor_report (new_device\<lparr>event_callback := True, pressed_buttons := {1}\<rparr>)
     (report_buffer [0x13, 0xff, 0x02, 0x00, 0x00, 0x01, 2]) 64 =
     ([], new_device\<lparr>event_callback := True, pressed_buttons := {1}\<rparr>)"
proof -
  have c1: "collect_pressed (report_buffer [0x13, 0xff, 0x02, 0x00, 0x00, 0x01, 2, 3, 1])
              (nat 64) 6 {} = {0, 1, 2}"
    by (auto simp: collect_pressed.simps report_buffer_def)
  have c2: "collect_pressed (report_buffer [0x13, 0xff, 0x02, 0x00, 0x00, 0x01, 2])
              (nat 64) 6 {} = {1}"
    by (auto simp: collect_pressed.simps report_buffer_def)
  have d1: "{0, 1, 2} - {0, 1} = {2 :: u8}" and d2: "{0, 1} - {0, 1, 2} = ({} :: u8 set)"
    and d3: "{1} - {0, 1, 2} = ({} :: u8 set)" and d4: "{0, 1, 2} - {1} = {0, 2 :: u8}"
    by auto
  have s: "sorted_list_of_set {0, 2 :: u8} = [0, 2]"
    by code_simp
  let ?ra = "report_buffer [0x13, 0xff, 0x02, 0x00, 0x00, 0x01, 2, 3, 1]"
  let ?rb = "report_buffer [0x13, 0xff, 0x02, 0x00, 0x00, 0x01, 2]"
  let ?d1 = "new_device\<lparr>event_callback := True, pressed_buttons := {0, 1}\<rparr>"
  let ?d2 = "new_device\<lparr>event_callback := True, pressed_buttons := {0, 1, 2}\<rparr>"
  let ?d3 = "new_device\<lparr>event_callback := True, pressed_buttons := {1}\<rparr>"
  have n: "(7::int) \<le> 64" by simp
  have ga: "?ra ! 0 = 0x13" "?ra ! 1 = 0xff" "?ra ! 2 = 0x02" "?ra ! 3 = 0x00" "?ra ! 5 = 0x01"
    by (simp_all add: report_buffer_def)
  have gb: "?rb ! 0 = 0x13" "?rb ! 1 = 0xff" "?rb ! 2 = 0x02" "?rb ! 3 = 0x00" "?rb ! 5 = 0x01"
    by (simp_all add: report_buffer_def)
  have cb: "event_callback ?d1" "event_callback ?d2" "event_callback ?d3"
    by simp_all
  have p: "{0, 1} = pressed_buttons ?d1" "{0, 1, 2} = pressed_buttons ?d2"
      "{1} = pressed_buttons ?d3"
    by simp_all
  have r1: "monitor_report ?d1 ?ra 64 = ([\<lparr>event_type = BUTTON_PRESS, button_code = 2, pressed = True\<rparr>], ?d2)"
    using grid_report_press_release_edges [OF n ga cb(1) c1 [symmetric] p(1)]
    by (simp add: d1 d2)
  have r2: "monitor_report ?d2 ?rb 64 = ([\<lparr>event_type = BUTTON_RELEASE, button_code = 0, pressed = False\<rparr>,
   \<lparr>event_type = BUTTON_RELEASE, button_code = 2, pressed = False\<rparr>], ?d3)"
    using grid_report_press_release_edges [OF n gb cb(2) c2 [symmetric] p(2)]
    by (simp add: d3 d4 s)
  have r3: "monitor_report ?d3 ?rb 64 = ([], ?d3)"
    using grid_report_press_release_edges [OF n gb cb(3) c2 [symmetric] p(3)]
    by simp
  show ?thesis
    using r1 r2 r3 by (simp only: simp_thms)
qed

lemma monitor_report_navigation:
  assumes "bytes_read \<ge> 6"
    and "report ! 0 = 0x11" and "report ! 1 = 0xff" and "report ! 2 = 0x0b"
    and "report ! 3 = 0x00"
  shows "monitor_report dev report bytes_read =
     (if report ! 4 = 0x01 \<and> (report ! 5 = 0xa1 \<or> report ! 5 = 0xa2)
      then (deliver dev (press_event (report ! 5)), dev\<lparr>last_p_button := report ! 5\<rparr>)
      else if report ! 4 = 0x00 \<and> last_p_button dev \<noteq> 0
      then (deliver dev (release_event (last_p_button dev)), dev\<lparr>last_p_button := 0\<rparr>)
      else ([], dev))"
  using assms by (auto simp: monitor_report_def)

text \<open>
  Claim C5. For a navigation report (at least 6 bytes read, signature \<open>11 ff 0b 00\<close>) and a
  registered callback: action byte 1 with code \<open>0xA1\<close> or \<open>0xA2\<close> gives one press event for
  the code, which is remembered in \<open>last_p_button\<close>; action byte 0 gives one release event for
  the remembered code and clears it, and gives nothing when no code is remembered (the field
  is 0). Such a report never changes \<open>pressed_buttons\<close> and gives at most one event, so it is
  not decoded as a grid report. A press report followed by a release report gives the press
  and then the release of the same code. The events are given by their fields: type
  \<open>BUTTON_PRESS\<close> with \<open>pressed\<close> true, type \<open>BUTTON_RELEASE\<close> with \<open>pressed\<close> false, and
  the code as button code.
\<close>

theorem navigation_report_press_release:
  assumes "bytes_read \<ge> 6"
    and "report ! 0 = 0x11" and "report ! 1 = 0xff" and "report ! 2 = 0x0b"
    and "report ! 3 = 0x00"
    and "event_callback dev"
  shows "(report ! 4 = 0x01 \<and> (report ! 5 = 0xa1 \<or> report ! 5 = 0xa2) \<longrightarrow>
            monitor_report dev report bytes_read =
              ([\<lparr>event_type = BUTTON_PRESS, button_code = report ! 5, pressed = True\<rparr>],
               dev\<lparr>last_p_button := report ! 5\<rparr>))
       \<and> (report ! 4 = 0x00 \<and> last_p_button dev \<noteq> 0 \<longrightarrow>
            monitor_report dev report bytes_read =
              ([\<lparr>event_type = BUTTON_RELEASE, button_code = last_p_button dev, pressed = False\<rparr>],
               dev\<lparr>last_p_button := 0\<rparr>))
       \<and> (report ! 4 = 0x00 \<and> last_p_button dev = 0 \<longrightarrow>
            monitor_report dev report bytes_read = ([], dev))
       \<and> pressed_buttons (snd (monitor_report dev report bytes_read)) = pressed_buttons dev
       \<and> length (fst (monitor_report dev report bytes_read)) \<le> 1
       \<and> (report ! 4 = 0x01 \<and> (report ! 5 = 0xa1 \<or> report ! 5 = 0xa2) \<and>
            bytes_read' \<ge> 6 \<and> report' ! 0 = 0x11 \<and> report' ! 1 = 0xff \<and>
            report' ! 2 = 0x0b \<and> report' ! 3 = 0x00 \<and> report' ! 4 = 0x00 \<longrightarrow>
            fst (monitor_report dev report bytes_read)
              @ fst (monitor_report (snd (monitor_report dev report bytes_read)) report' bytes_read')
              = [\<lparr>event_type = BUTTON_PRESS, button_code = report ! 5, pressed = True\<rparr>,
               \<lparr>event_type = BUTTON_RELEASE, button_code = report ! 5, pressed = False\<rparr>]
            \<and> last_p_button
                (snd (monitor_report (snd (monitor_report dev report bytes_read))
                        report' bytes_read')) = 0)"
proof -
  note nav = monitor_report_navigation [OF assms(1-5), of dev,
      unfolded press_event_fields release_event_fields]
  have a: "report ! 4 = 0x01 \<and> (report ! 5 = 0xa1 \<or> report ! 5 = 0xa2) \<longrightarrow>
            monitor_report dev report bytes_read =
              ([\<lparr>event_type = BUTTON_PRESS, button_code = report ! 5, pressed = True\<rparr>],
               dev\<lparr>last_p_button := report ! 5\<rparr>)"
    using assms(6) by (simp add: nav deliver_def)
  have b: "report ! 4 = 0x00 \<and> last_p_button dev \<noteq> 0 \<longrightarrow>
            monitor_report dev report bytes_read =
              ([\<lparr>event_type = BUTTON_RELEASE, button_code = last_p_button dev, pressed = False\<rparr>],
               dev\<lparr>last_p_button := 0\<rparr>)"
    using assms(6) by (simp add: nav deliver_def)
  have c: "report ! 4 = 0x00 \<and> last_p_button dev = 0 \<longrightarrow>
            monitor_report dev report bytes_read = ([], dev)"
    by (simp add: nav)
  have d: "pressed_buttons (snd (monitor_report dev report bytes_read)) = pressed_buttons dev"
    by (simp add: nav)
  have e: "length (fst (monitor_report dev report bytes_read)) \<le> 1"
    by (simp add: nav deliver_def)
  have f: "fst (monitor_report dev report bytes_read)
              @ fst (monitor_report (snd (monitor_report dev report bytes_read)) report' bytes_read')
              = [\<lparr>event_type = BUTTON_PRESS, button_code = report ! 5, pressed = True\<rparr>,
               \<lparr>event_type = BUTTON_RELEASE, button_code = report ! 5, pressed = False\<rparr>]
            \<and> last_p_button
                (snd (monitor_report (snd (monitor_report dev report bytes_read))
                        report' bytes_read')) = 0"
    if p: "report ! 4 = 0x01 \<and> (report ! 5 = 0xa1 \<or> report ! 5 = 0xa2)"
      and n: "bytes_read' \<ge> 6" "report' ! 0 = 0x11" "report' ! 1 = 0xff"
        "report' ! 2 = 0x0b" "report' ! 3 = 0x00" and r: "report' ! 4 = 0x00"
  proof -
    have first: "monitor_report dev report bytes_read =
        ([\<lparr>event_type = BUTTON_PRESS, button_code = report ! 5, pressed = True\<rparr>],
         dev\<lparr>last_p_button := report ! 5\<rparr>)"
      using a p by blast
    have nz: "report ! 5 \<noteq> 0" using p by auto
    show ?thesis
      unfolding first using assms(6) r nz
      by (simp add: monitor_report_navigation [OF n] deliver_def press_event_def
            release_event_def)
  qed
  show ?thesis
    using a b c d e f by blast
qed

text \<open>
  The theorem on a press report for \<open>0xA1\<close> (with a stray grid byte after the code) followed
  by a release report.
\<close>

theorem navigation_report_press_release_witness:
  "monitor_report (new_device\<lparr>event_callback := True, pressed_buttons := {3}\<rparr>)
     (report_buffer [0x11, 0xff, 0x0b, 0x00, 0x01, 0xa1, 0x05]) 20 =
     ([\<lparr>event_type = BUTTON_PRESS, button_code = 0xa1, pressed = True\<rparr>],
      new_device\<lparr>event_callback := True, pressed_buttons := {3}, last_p_button := 0xa1\<rparr>)
   \<and> fst (monitor_report (new_device\<lparr>event_callback := True, pressed_buttons := {3}\<rparr>)
          (report_buffer [0x11, 0xff, 0x0b, 0x00, 0x01, 0xa1, 0x05]) 20)
       @ fst (monitor_report
          (snd (monitor_report (new_device\<lparr>event_callback := True, pressed_buttons := {3}\<rparr>)
             (report_buffer [0x11, 0xff, 0x0b, 0x00, 0x01, 0xa1, 0x05]) 20))
          (report_buffer [0x11, 0xff, 0x0b, 0x00, 0x00, 0x00]) 20)
       = [\<lparr>event_type = BUTTON_PRESS, button_code = 0xa1, pressed = True\<rparr>,
        \<lparr>event_type = BUTTON_RELEASE, button_code = 0xa1, pressed = False\<rparr>]"
proof -
  let ?press = "report_buffer [0x11, 0xff, 0x0b, 0x00, 0x01, 0xa1, 0x05]"
  let ?release = "report_buffer [0x11, 0xff, 0x0b, 0x00, 0x00, 0x00]"
  let ?dev = "new_device\<lparr>event_callback := True, pressed_buttons := {3}\<rparr>"
  have n: "(6::int) \<le> 20" by simp
  have g: "?press ! 0 = 0x11" "?press ! 1 = 0xff" "?press ! 2 = 0x0b" "?press ! 3 = 0x00"
    by (simp_all add: report_buffer_def)
  have cb: "event_callback ?dev" by simp
  have p: "?press ! 4 = 0x01" "?press ! 5 = 0xa1"
    by (simp_all add: report_buffer_def)
  have r: "?release ! 0 = 0x11" "?release ! 1 = 0xff" "?release ! 2 = 0x0b"
      "?release ! 3 = 0x00" "?release ! 4 = 0x00"
    by (simp_all add: report_buffer_def)
  note t = navigation_report_press_release [OF n g cb, of 20 ?release]
  have a: "monitor_report ?dev ?press 20 =
      ([\<lparr>event_type = BUTTON_PRESS, button_code = ?press ! 5, pressed = True\<rparr>], ?dev\<lparr>last_p_button := ?press ! 5\<rparr>)"
    using t p by blast
  have b: "fst (monitor_report ?dev ?press 20)
       @ fst (monitor_report (snd (monitor_report ?dev ?press 20)) ?release 20)
       = [\<lparr>event_type = BUTTON_PRESS, button_code = ?press ! 5, pressed = True\<rparr>,
        \<lparr>event_type = BUTTON_RELEASE, button_code = ?press ! 5, pressed = False\<rparr>]"
    using t p r n by blast
  show ?thesis
    using a [unfolded p(2)] b [unfolded p(2)] by (rule conjI)
qed

section \<open>Claims about the channel writer\<close>

lemma write_packets_result:
  assumes "\<not> O_NONBLOCK ch"
    and "r1 = replies ch (length (writes ch))"
    and "r2 = replies ch (length (writes ch) + 1)"
  shows "write_packets ch packets =
     (if would_block r1 then r2 = Returned (length packets * 4095)
      else r1 = Returned (length packets * 4095),
      ch\<lparr>writes := writes ch @ (True, packets) # (if would_block r1 then [(False, packets)] else [])\<rparr>)"
proof (cases r1)
  case (Returned n)
  then show ?thesis
    using assms
    by (simp add: write_packets_def writev_def Let_def would_block_def MAX_PACKET_SIZE_def
          split: ssize_result.splits)
next
  case (Failed e)
  then show ?thesis
    using assms
    by (cases e)
       (auto simp: write_packets_def writev_def Let_def would_block_def MAX_PACKET_SIZE_def
          split: ssize_result.splits)
qed

lemma raw_packets_nonempty: "generateRawImagePackets x y w h d \<noteq> []"
  using raw_length [of x y w h d] by auto

lemma key_packets_nonempty: "generateImagePackets keyIndex d \<noteq> []"
  by (simp add: key_is_raw raw_packets_nonempty)

text \<open>
  Claim C6. On an initialised session whose descriptor is in blocking mode, \<open>setKeyImage\<close>
  (with a key index from 0 to 8) and \<open>setRawImage\<close> make one \<open>writev\<close> over the whole packet
  sequence with \<open>O_NONBLOCK\<close> set; they make a second \<open>writev\<close> over the whole sequence, in
  blocking mode, exactly when the first one fails with \<open>EAGAIN\<close> or \<open>EWOULDBLOCK\<close>, and no
  further call. The result is true exactly when the deciding \<open>writev\<close> (the second after a
  would-block, the first otherwise) returns the packet count times 4095.
\<close>

theorem writer_single_attempt_and_fallback:
  assumes "initialized dev" and "\<not> O_NONBLOCK ch"
    and "r1 = replies ch (length (writes ch))"
    and "r2 = replies ch (length (writes ch) + 1)"
    and "(0 \<le> keyIndex \<and> keyIndex \<le> 8 \<and> packets = generateImagePackets keyIndex jpegData \<and>
          result = setKeyImage dev ch keyIndex jpegData)
       \<or> (packets = generateRawImagePackets x y w h jpegData \<and>
          result = setRawImage dev ch x y w h jpegData)"
  shows "writes (snd result) =
           writes ch @ (True, packets) # (if would_block r1 then [(False, packets)] else [])
       \<and> fst result = (if would_block r1 then r2 = Returned (length packets * 4095)
                       else r1 = Returned (length packets * 4095))
       \<and> O_NONBLOCK (snd result) = False
       \<and> replies (snd result) = replies ch"
proof -
  have "result = write_packets ch packets"
    using assms(1,5)
    by (auto simp: setKeyImage_def setRawImage_def Let_def raw_packets_nonempty
          key_packets_nonempty)
  then show ?thesis
    using assms(2) by (simp add: write_packets_result [OF assms(2,3,4)])
qed

text \<open>
  The theorem where the first \<open>writev\<close> would block and the second accepts the 4095 bytes,
  and where the first \<open>writev\<close> accepts only 4000 bytes.
\<close>

theorem writer_single_attempt_and_fallback_witness:
  "setKeyImage (new_device\<lparr>initialized := True\<rparr>)
     (opened_channel (\<lambda>n. if n = 0 then Failed EAGAIN else Returned 4095)) 0 [0xff, 0xd8, 0xff]
   = (True, (opened_channel (\<lambda>n. if n = 0 then Failed EAGAIN else Returned 4095))
        \<lparr>writes := [(True, generateImagePackets 0 [0xff, 0xd8, 0xff]),
                    (False, generateImagePackets 0 [0xff, 0xd8, 0xff])]\<rparr>)
   \<and> setRawImage (new_device\<lparr>initialized := True\<rparr>)
     (opened_channel (\<lambda>n. Returned 4000)) 23 6 434 434 [0xff, 0xd8, 0xff]
   = (False, (opened_channel (\<lambda>n. Returned 4000))
        \<lparr>writes := [(True, generateRawImagePackets 23 6 434 434 [0xff, 0xd8, 0xff])]\<rparr>)"
proof -
  let ?dev = "new_device\<lparr>initialized := True\<rparr>"
  let ?ch1 = "opened_channel (\<lambda>n. if n = 0 then Failed EAGAIN else Returned 4095)"
  let ?ch2 = "opened_channel (\<lambda>n. Returned 4000)"
  let ?d = "[0xff, 0xd8, 0xff] :: u8 list"
  have i: "initialized ?dev" by simp
  have b1: "\<not> O_NONBLOCK ?ch1" and b2: "\<not> O_NONBLOCK ?ch2"
    by (simp_all add: opened_channel_def)
  have q1: "Failed EAGAIN = replies ?ch1 (length (writes ?ch1))"
    and q2: "Returned 4095 = replies ?ch1 (length (writes ?ch1) + 1)"
    and q3: "Returned 4000 = replies ?ch2 (length (writes ?ch2))"
    and q4: "Returned 4000 = replies ?ch2 (length (writes ?ch2) + 1)"
    by (simp_all add: opened_channel_def)
  have k: "(0 \<le> (0::int) \<and> (0::int) \<le> 8 \<and>
         generateImagePackets 0 ?d = generateImagePackets 0 ?d \<and>
         setKeyImage ?dev ?ch1 0 ?d = setKeyImage ?dev ?ch1 0 ?d)
       \<or> (generateImagePackets 0 ?d = generateRawImagePackets 23 6 434 434 ?d \<and>
         setKeyImage ?dev ?ch1 0 ?d = setRawImage ?dev ?ch1 23 6 434 434 ?d)"
    by simp
  have r: "(0 \<le> (0::int) \<and> (0::int) \<le> 8 \<and>
         generateRawImagePackets 23 6 434 434 ?d = generateImagePackets 0 ?d \<and>
         setRawImage ?dev ?ch2 23 6 434 434 ?d = setKeyImage ?dev ?ch2 0 ?d)
       \<or> (generateRawImagePackets 23 6 434 434 ?d = generateRawImagePackets 23 6 434 434 ?d \<and>
         setRawImage ?dev ?ch2 23 6 434 434 ?d = setRawImage ?dev ?ch2 23 6 434 434 ?d)"
    by simp
  have l1: "length (generateImagePackets 0 ?d) = 1"
    by (simp add: key_is_raw raw_length)
  have l2: "length (generateRawImagePackets 23 6 434 434 ?d) = 1"
    by (simp add: raw_length)
  note t1 = writer_single_attempt_and_fallback [OF i b1 q1 q2 k]
  note t2 = writer_single_attempt_and_fallback [OF i b2 q3 q4 r]
  have e1: "setKeyImage ?dev ?ch1 0 ?d =
      (True, ?ch1\<lparr>writes := [(True, generateImagePackets 0 ?d),
                              (False, generateImagePackets 0 ?d)]\<rparr>)"
    using t1 unfolding l1
    by (cases "setKeyImage ?dev ?ch1 0 ?d") (simp add: would_block_def opened_channel_def)
  have e2: "setRawImage ?dev ?ch2 23 6 434 434 ?d =
      (False, ?ch2\<lparr>writes := [(True, generateRawImagePackets 23 6 434 434 ?d)]\<rparr>)"
    using t2 unfolding l2
    by (cases "setRawImage ?dev ?ch2 23 6 434 434 ?d") (simp add: would_block_def opened_channel_def)
  show ?thesis
    using e1 e2 by (rule conjI)
qed

text \<open>
  The guards of the image writes: an invalid key index or an uninitialised session is turned
  down with the channel untouched.
\<close>

lemma image_write_rejected_before_io:
  "keyIndex < 0 \<or> keyIndex > 8 \<or> \<not> initialized dev \<Longrightarrow>
     setKeyImage dev ch keyIndex jpegData = (False, ch)"
  "\<not> initialized dev \<Longrightarrow> setRawImage dev ch x y w h jpegData = (False, ch)"
  "\<not> initialized dev \<Longrightarrow> setScreenImage dev ch jpegData = (False, ch)"
  by (auto simp: setKeyImage_def setRawImage_def setScreenImage_def)

text \<open>
  Claim C7 at an empty payload. The generators give one header-only packet for an empty
  buffer, so the test \<open>packets.empty()\<close> never holds: on an initialised session
  \<open>setKeyImage\<close>, \<open>setRawImage\<close> and \<open>setScreenImage\<close> transmit that packet and, when the
  channel accepts its 4095 bytes, return true.
\<close>

theorem empty_payload_is_transmitted:
  "setKeyImage (new_device\<lparr>initialized := True\<rparr>) (opened_channel (\<lambda>n. Returned 4095)) 0 [] =
     (True, (opened_channel (\<lambda>n. Returned 4095))
        \<lparr>writes := [(True, generateImagePackets 0 [])]\<rparr>)
   \<and> setRawImage (new_device\<lparr>initialized := True\<rparr>) (opened_channel (\<lambda>n. Returned 4095))
       23 6 434 434 [] =
     (True, (opened_channel (\<lambda>n. Returned 4095))
        \<lparr>writes := [(True, generateRawImagePackets 23 6 434 434 [])]\<rparr>)
   \<and> setScreenImage (new_device\<lparr>initialized := True\<rparr>) (opened_channel (\<lambda>n. Returned 4095)) [] =
     (True, (opened_channel (\<lambda>n. Returned 4095))
        \<lparr>writes := [(True, generateRawImagePackets 23 6 434 434 [])]\<rparr>)
   \<and> length (generateImagePackets 0 []) = 1
   \<and> length (generateRawImagePackets 23 6 434 434 []) = 1
   \<and> generateRawImagePackets 23 6 434 434 [] ! 0 ! 4 = 0xE1"
proof -
  have l: "length (generateRawImagePackets x y w h []) = 1" for x y w h
    by (simp add: raw_length)
  have b: "\<not> O_NONBLOCK (opened_channel (\<lambda>n. Returned 4095))"
    by (simp add: opened_channel_def)
  have w: "write_packets (opened_channel (\<lambda>n. Returned 4095)) packets =
      (True, (opened_channel (\<lambda>n. Returned 4095))\<lparr>writes := [(True, packets)]\<rparr>)"
    if "length packets = 1" for packets
    unfolding write_packets_result [OF b refl refl]
    using that by (simp add: would_block_def opened_channel_def)
  have c: "generateRawImagePackets 23 6 434 434 [] ! 0 ! 4 = 0xE1"
    using raw_control_byte [of 0 23 6 434 434 "[]"]
    by (simp add: l generateWritePacketByte_value)
  show ?thesis
    by (simp add: setKeyImage_def setRawImage_def setScreenImage_def SCREEN_WIDTH_def
        SCREEN_HEIGHT_def Let_def raw_packets_nonempty key_packets_nonempty w l key_is_raw c)
qed

section \<open>Claims about the animation tasks\<close>

lemma stopKeyAnimation_acts:
  "snd (stopKeyAnimation dev k) =
     (case animations dev k of None \<Rightarrow> []
      | Some a \<Rightarrow> RequestStop (KeyAnimationThread k)
          # (if animation_thread a then [Join (KeyAnimationThread k)] else []))"
  "fst (stopKeyAnimation dev k) =
     (case animations dev k of None \<Rightarrow> dev
      | Some a \<Rightarrow> dev\<lparr>animations := (animations dev)(k := None)\<rparr>)"
  by (simp_all add: stopKeyAnimation_def Let_def split: option.splits)

lemma stopScreenAnimation_acts:
  "snd (stopScreenAnimation dev) =
     (case screen_animation dev of None \<Rightarrow> []
      | Some a \<Rightarrow> RequestStop ScreenAnimationThread
          # (if animation_thread a then [Join ScreenAnimationThread] else []))"
  "fst (stopScreenAnimation dev) =
     (case screen_animation dev of None \<Rightarrow> dev
      | Some a \<Rightarrow> dev\<lparr>screen_animation := None\<rparr>)"
  by (simp_all add: stopScreenAnimation_def Let_def split: option.splits)

lemma stopKeyAnimation_live:
  "live_max t (stored_threads dev t) (snd (stopKeyAnimation dev k)) \<le> 1
   \<and> foldl (live_step t) (stored_threads dev t) (snd (stopKeyAnimation dev k)) =
       stored_threads (fst (stopKeyAnimation dev k)) t"
  by (cases t) (auto simp: stopKeyAnimation_acts split: option.splits)

lemma stopScreenAnimation_live:
  "live_max t (stored_threads dev t) (snd (stopScreenAnimation dev)) \<le> 1
   \<and> foldl (live_step t) (stored_threads dev t) (snd (stopScreenAnimation dev)) =
       stored_threads (fst (stopScreenAnimation dev)) t"
  by (cases t) (auto simp: stopScreenAnimation_acts split: option.splits)

lemma live_max_ge: "n \<le> live_max t n acts"
  by (cases acts) simp_all

lemma live_max_append:
  "live_max t n (xs @ ys) = max (live_max t n xs) (live_max t (foldl (live_step t) n xs) ys)"
proof (induction xs arbitrary: n)
  case Nil
  show ?case using live_max_ge [of n t ys] by simp
next
  case (Cons a xs)
  then show ?case by (simp add: max.assoc)
qed

lemma setKeyGif_unfold:
  assumes "0 \<le> k" and "k \<le> 8" and "initialized dev"
  shows "setKeyGif dec dev k g l =
     (if fst (dec g \<lparr>frames = [], loop = l\<rparr> LCD_SIZE LCD_SIZE)
         \<and> frames (snd (dec g \<lparr>frames = [], loop = l\<rparr> LCD_SIZE LCD_SIZE)) \<noteq> []
      then (True,
            (fst (stopKeyAnimation dev k))
              \<lparr>animations := (animations (fst (stopKeyAnimation dev k)))
                 (k \<mapsto> \<lparr>animation = snd (dec g \<lparr>frames = [], loop = l\<rparr> LCD_SIZE LCD_SIZE),
                        running = True, animation_thread = True, current_frame = 0\<rparr>)\<rparr>,
            snd (stopKeyAnimation dev k) @ [Spawn (KeyAnimationThread k)])
      else (False, fst (stopKeyAnimation dev k), snd (stopKeyAnimation dev k)))"
  using assms by (auto simp: setKeyGif_def Let_def split_beta)

lemma setKeyGif_guard:
  "k < 0 \<or> k > 8 \<or> \<not> initialized dev \<Longrightarrow> setKeyGif dec dev k g l = (False, dev, [])"
  by (auto simp: setKeyGif_def)

lemma setKeyGif_live:
  "live_max t (stored_threads dev t) (snd (snd (setKeyGif dec dev k g l))) \<le> 1
   \<and> foldl (live_step t) (stored_threads dev t) (snd (snd (setKeyGif dec dev k g l))) =
       stored_threads (fst (snd (setKeyGif dec dev k g l))) t"
proof (cases "k < 0 \<or> k > 8 \<or> \<not> initialized dev")
  case True
  then show ?thesis
    by (cases t) (auto simp: setKeyGif_guard split: option.splits)
next
  case False
  then have v: "0 \<le> k" "k \<le> 8" "initialized dev" by auto
  show ?thesis
    unfolding setKeyGif_unfold [OF v]
    by (cases t)
       (auto simp: stopKeyAnimation_acts live_max_append split: option.splits)
qed

lemma setKeyGifFromFile_unfold:
  assumes "0 \<le> k" and "k \<le> 8" and "initialized dev"
  shows "setKeyGifFromFile decf dev k g l =
     (if fst (decf g \<lparr>frames = [], loop = l\<rparr> LCD_SIZE LCD_SIZE)
         \<and> frames (snd (decf g \<lparr>frames = [], loop = l\<rparr> LCD_SIZE LCD_SIZE)) \<noteq> []
      then (True,
            (fst (stopKeyAnimation dev k))
              \<lparr>animations := (animations (fst (stopKeyAnimation dev k)))
                 (k \<mapsto> \<lparr>animation = snd (decf g \<lparr>frames = [], loop = l\<rparr> LCD_SIZE LCD_SIZE),
                        running = True, animation_thread = True, current_frame = 0\<rparr>)\<rparr>,
            snd (stopKeyAnimation dev k) @ [Spawn (KeyAnimationThread k)])
      else (False, fst (stopKeyAnimation dev k), snd (stopKeyAnimation dev k)))"
  using assms by (auto simp: setKeyGifFromFile_def Let_def split_beta)

lemma setKeyGifFromFile_guard:
  "k < 0 \<or> k > 8 \<or> \<not> initialized dev \<Longrightarrow> setKeyGifFromFile decf dev k g l = (False, dev, [])"
  by (auto simp: setKeyGifFromFile_def)

lemma setKeyGifFromFile_live:
  "live_max t (stored_threads dev t) (snd (snd (setKeyGifFromFile decf dev k g l))) \<le> 1
   \<and> foldl (live_step t) (stored_threads dev t) (snd (snd (setKeyGifFromFile decf dev k g l))) =
       stored_threads (fst (snd (setKeyGifFromFile decf dev k g l))) t"
proof (cases "k < 0 \<or> k > 8 \<or> \<not> initialized dev")
  case True
  then show ?thesis
    by (cases t) (auto simp: setKeyGifFromFile_guard split: option.splits)
next
  case False
  then have v: "0 \<le> k" "k \<le> 8" "initialized dev" by auto
  show ?thesis
    unfolding setKeyGifFromFile_unfold [OF v]
    by (cases t)
       (auto simp: stopKeyAnimation_acts live_max_append split: option.splits)
qed

lemma setScreenGif_unfold:
  assumes "initialized dev"
  shows "setScreenGif dec dev g l =
     (if fst (dec g \<lparr>frames = [], loop = l\<rparr> (unat SCREEN_WIDTH) (unat SCREEN_HEIGHT))
         \<and> frames (snd (dec g \<lparr>frames = [], loop = l\<rparr> (unat SCREEN_WIDTH)
               (unat SCREEN_HEIGHT))) \<noteq> []
      then (True,
            (fst (stopScreenAnimation dev))
              \<lparr>screen_animation :=
                 Some \<lparr>animation = snd (dec g \<lparr>frames = [], loop = l\<rparr> (unat SCREEN_WIDTH)
                                (unat SCREEN_HEIGHT)),
                        running = True, animation_thread = True, current_frame = 0\<rparr>\<rparr>,
            snd (stopScreenAnimation dev) @ [Spawn ScreenAnimationThread])
      else (False, fst (stopScreenAnimation dev), snd (stopScreenAnimation dev)))"
  using assms by (auto simp: setScreenGif_def Let_def split_beta)

lemma setScreenGif_guard:
  "\<not> initialized dev \<Longrightarrow> setScreenGif dec dev g l = (False, dev, [])"
  by (auto simp: setScreenGif_def)

lemma setScreenGif_live:
  "live_max t (stored_threads dev t) (snd (snd (setScreenGif dec dev g l))) \<le> 1
   \<and> foldl (live_step t) (stored_threads dev t) (snd (snd (setScreenGif dec dev g l))) =
       stored_threads (fst (snd (setScreenGif dec dev g l))) t"
proof (cases "initialized dev")
  case False
  then show ?thesis
    by (cases t) (auto simp: setScreenGif_guard split: option.splits)
next
  case True
  show ?thesis
    unfolding setScreenGif_unfold [OF True]
    by (cases t)
       (auto simp: stopScreenAnimation_acts live_max_append split: option.splits)
qed

lemma setScreenGifFromFile_unfold:
  assumes "initialized dev"
  shows "setScreenGifFromFile decf dev g l =
     (if fst (decf g \<lparr>frames = [], loop = l\<rparr> (unat SCREEN_WIDTH) (unat SCREEN_HEIGHT))
         \<and> frames (snd (decf g \<lparr>frames = [], loop = l\<rparr> (unat SCREEN_WIDTH)
               (unat SCREEN_HEIGHT))) \<noteq> []
      then (True,
            (fst (stopScreenAnimation dev))
              \<lparr>screen_animation :=
                 Some \<lparr>animation = snd (decf g \<lparr>frames = [], loop = l\<rparr> (unat SCREEN_WIDTH)
                                (unat SCREEN_HEIGHT)),
                        running = True, animation_thread = True, current_frame = 0\<rparr>\<rparr>,
            snd (stopScreenAnimation dev) @ [Spawn ScreenAnimationThread])
      else (False, fst (stopScreenAnimation dev), snd (stopScreenAnimation dev)))"
  using assms by (auto simp: setScreenGifFromFile_def Let_def split_beta)

lemma setScreenGifFromFile_guard:
  "\<not> initialized dev \<Longrightarrow> setScreenGifFromFile decf dev g l = (False, dev, [])"
  by (auto simp: setScreenGifFromFile_def)

lemma setScreenGifFromFile_live:
  "live_max t (stored_threads dev t) (snd (snd (setScreenGifFromFile decf dev g l))) \<le> 1
   \<and> foldl (live_step t) (stored_threads dev t) (snd (snd (setScreenGifFromFile decf dev g l))) =
       stored_threads (fst (snd (setScreenGifFromFile decf dev g l))) t"
proof (cases "initialized dev")
  case False
  then show ?thesis
    by (cases t) (auto simp: setScreenGifFromFile_guard split: option.splits)
next
  case True
  show ?thesis
    unfolding setScreenGifFromFile_unfold [OF True]
    by (cases t)
       (auto simp: stopScreenAnimation_acts live_max_append split: option.splits)
qed

lemma animation_step_live:
  "live_max t (stored_threads dev t) (snd (animation_step dec decf dev c)) \<le> 1
   \<and> foldl (live_step t) (stored_threads dev t) (snd (animation_step dec decf dev c)) =
       stored_threads (fst (animation_step dec decf dev c)) t"
proof (cases c)
  case (SetKeyGif k g l)
  then show ?thesis using setKeyGif_live [of t dev dec k g l] by simp
next
  case (SetKeyGifFromFile k g l)
  then show ?thesis using setKeyGifFromFile_live [of t dev decf k g l] by simp
next
  case (SetScreenGif g l)
  then show ?thesis using setScreenGif_live [of t dev dec g l] by simp
next
  case (SetScreenGifFromFile g l)
  then show ?thesis using setScreenGifFromFile_live [of t dev decf g l] by simp
next
  case (StopKeyAnimation k)
  then show ?thesis using stopKeyAnimation_live [of t dev k] by simp
next
  case StopScreenAnimation
  then show ?thesis using stopScreenAnimation_live [of t dev] by simp
qed

lemma animation_calls_live:
  "live_max t (stored_threads dev t) (snd (animation_calls dec decf dev calls)) \<le> 1
   \<and> foldl (live_step t) (stored_threads dev t) (snd (animation_calls dec decf dev calls)) =
       stored_threads (fst (animation_calls dec decf dev calls)) t"
proof (induction calls arbitrary: dev)
  case Nil
  show ?case by (cases t) (simp_all split: option.splits)
next
  case (Cons c cs)
  note s = animation_step_live [of t dev dec decf c]
  note r = Cons.IH [of "fst (animation_step dec decf dev c)"]
  show ?case
    using s r by (simp add: split_beta Let_def live_max_append)
qed

text \<open>
  Claim C9. Over any sequence of \<open>setKeyGif\<close>, \<open>setKeyGifFromFile\<close>, \<open>setScreenGif\<close>,
  \<open>setScreenGifFromFile\<close>, \<open>stopKeyAnimation\<close> and \<open>stopScreenAnimation\<close> calls made one
  after the other, no target ever has more than one worker thread that is spawned and not yet
  joined. When a target holds a task, each of the four start operations first sets the task's
  run flag to false, then joins its thread, and only then (when decoding gave at least one
  frame) spawns the thread of the replacement, which is stored in the table.
\<close>

theorem one_animation_task_per_target:
  "live_max t (stored_threads dev t) (snd (animation_calls dec decf dev calls)) \<le> 1
   \<and> (0 \<le> k \<and> k \<le> 8 \<and> initialized dev \<and> animations dev k = Some a \<and> animation_thread a
        \<longrightarrow>
        snd (snd (setKeyGif dec dev k gifData l)) =
          [RequestStop (KeyAnimationThread k), Join (KeyAnimationThread k)]
            @ (if fst (setKeyGif dec dev k gifData l) then [Spawn (KeyAnimationThread k)] else [])
      \<and> snd (snd (setKeyGifFromFile decf dev k gifPath l)) =
          [RequestStop (KeyAnimationThread k), Join (KeyAnimationThread k)]
            @ (if fst (setKeyGifFromFile decf dev k gifPath l)
               then [Spawn (KeyAnimationThread k)] else []))
   \<and> (initialized dev \<and> screen_animation dev = Some a \<and> animation_thread a
        \<longrightarrow>
        snd (snd (setScreenGif dec dev gifData l)) =
          [RequestStop ScreenAnimationThread, Join ScreenAnimationThread]
            @ (if fst (setScreenGif dec dev gifData l) then [Spawn ScreenAnimationThread] else [])
      \<and> snd (snd (setScreenGifFromFile decf dev gifPath l)) =
          [RequestStop ScreenAnimationThread, Join ScreenAnimationThread]
            @ (if fst (setScreenGifFromFile decf dev gifPath l)
               then [Spawn ScreenAnimationThread] else []))"
proof -
  have a: "live_max t (stored_threads dev t) (snd (animation_calls dec decf dev calls)) \<le> 1"
    using animation_calls_live [of t dev dec decf calls] by simp
  have b: "snd (snd (setKeyGif dec dev k gifData l)) =
          [RequestStop (KeyAnimationThread k), Join (KeyAnimationThread k)]
            @ (if fst (setKeyGif dec dev k gifData l) then [Spawn (KeyAnimationThread k)] else [])
      \<and> snd (snd (setKeyGifFromFile decf dev k gifPath l)) =
          [RequestStop (KeyAnimationThread k), Join (KeyAnimationThread k)]
            @ (if fst (setKeyGifFromFile decf dev k gifPath l)
               then [Spawn (KeyAnimationThread k)] else [])"
    if "0 \<le> k" "k \<le> 8" "initialized dev" and "animations dev k = Some a" "animation_thread a"
    using that(4,5)
    by (simp add: setKeyGif_unfold [OF that(1-3)] setKeyGifFromFile_unfold [OF that(1-3)]
          stopKeyAnimation_acts)
  have c: "snd (snd (setScreenGif dec dev gifData l)) =
          [RequestStop ScreenAnimationThread, Join ScreenAnimationThread]
            @ (if fst (setScreenGif dec dev gifData l) then [Spawn ScreenAnimationThread] else [])
      \<and> snd (snd (setScreenGifFromFile decf dev gifPath l)) =
          [RequestStop ScreenAnimationThread, Join ScreenAnimationThread]
            @ (if fst (setScreenGifFromFile decf dev gifPath l)
               then [Spawn ScreenAnimationThread] else [])"
    if "initialized dev" and "screen_animation dev = Some a" "animation_thread a"
    using that(2,3)
    by (simp add: setScreenGif_unfold [OF that(1)] setScreenGifFromFile_unfold [OF that(1)]
          stopScreenAnimation_acts)
  show ?thesis
    using a b c by blast
qed

text \<open>
  The theorem on a session where key 4 shows an animation and \<open>setKeyGif\<close> is called for key
  4 again, with a decoder that yields one frame.
\<close>

theorem one_animation_task_per_target_witness:
  "snd (snd (setKeyGif
      (\<lambda>g a w h. (True, a\<lparr>frames := [\<lparr>jpeg_data = g, delay_ms = 100\<rparr>]\<rparr>))
      (new_device\<lparr>initialized := True,
         animations := [4 \<mapsto> \<lparr>animation = \<lparr>frames = [\<lparr>jpeg_data = [0x47], delay_ms = 100\<rparr>],
                                           loop = True\<rparr>,
                               running = True, animation_thread = True, current_frame = 0\<rparr>]\<rparr>)
      4 [0x49] True)) =
     [RequestStop (KeyAnimationThread 4), Join (KeyAnimationThread 4),
      Spawn (KeyAnimationThread 4)]
   \<and> live_max (KeyAnimationThread 4) 1
       [RequestStop (KeyAnimationThread 4), Join (KeyAnimationThread 4),
        Spawn (KeyAnimationThread 4)] \<le> 1"
proof -
  let ?dec = "\<lambda>g a w h. (True, a\<lparr>frames := [\<lparr>jpeg_data = g, delay_ms = 100\<rparr>]\<rparr>)"
  let ?decf = "\<lambda>p a w h. (False, a)"
  let ?a = "\<lparr>animation = \<lparr>frames = [\<lparr>jpeg_data = [0x47], delay_ms = 100\<rparr>], loop = True\<rparr>,
             running = True, animation_thread = True, current_frame = 0\<rparr>"
  let ?dev = "new_device\<lparr>initialized := True, animations := [4 \<mapsto> ?a]\<rparr>"
  have h: "0 \<le> (4::int) \<and> (4::int) \<le> 8 \<and> initialized ?dev \<and> animations ?dev 4 = Some ?a
             \<and> animation_thread ?a"
    by simp
  have v: "0 \<le> (4::int)" "(4::int) \<le> 8" "initialized ?dev"
    by simp_all
  have ok: "fst (setKeyGif ?dec ?dev 4 [0x49] True)"
    by (simp add: setKeyGif_unfold [OF v])
  have st: "stored_threads ?dev (KeyAnimationThread 4) = 1"
    by simp
  note t = one_animation_task_per_target [of "KeyAnimationThread 4" ?dev ?dec ?decf
      "[SetKeyGif 4 [0x49] True]" 4 ?a "[0x49]" True "[]"]
  have acts: "snd (snd (setKeyGif ?dec ?dev 4 [0x49] True)) =
     [RequestStop (KeyAnimationThread 4), Join (KeyAnimationThread 4),
      Spawn (KeyAnimationThread 4)]"
    using t h ok by simp
  have "live_max (KeyAnimationThread 4) (stored_threads ?dev (KeyAnimationThread 4))
          (snd (animation_calls ?dec ?decf ?dev [SetKeyGif 4 [0x49] True])) \<le> 1"
    using t by blast
  then have "live_max (KeyAnimationThread 4) 1
       [RequestStop (KeyAnimationThread 4), Join (KeyAnimationThread 4),
        Spawn (KeyAnimationThread 4)] \<le> 1"
    unfolding st by (simp add: split_beta acts)
  with acts show ?thesis by (rule conjI)
qed

section \<open>Claims about the session\<close>

lemma monitoring_step_no_callback:
  assumes "\<not> event_callback dev" and "c \<noteq> SetEventCallback True"
    and "monitoring_step dev c = Some (dev', acts)"
  shows "\<not> event_callback dev'"
proof (cases c)
  case (SetEventCallback b)
  then show ?thesis using assms by (cases b) (auto simp: setEventCallback_def)
next
  case StartMonitoring
  then show ?thesis using assms by (auto simp: startMonitoring_def)
next
  case StopMonitoring
  then show ?thesis using assms by (auto simp: stopMonitoring_def Let_def split: if_splits)
next
  case MonitorThreadExit
  then show ?thesis using assms by (auto simp: monitor_thread_exit_def)
qed

lemma monitoring_calls_no_callback:
  "\<not> event_callback dev \<Longrightarrow> SetEventCallback True \<notin> set calls \<Longrightarrow>
   monitoring_calls dev calls = Some (dev', acts) \<Longrightarrow> \<not> event_callback dev'"
proof (induction calls arbitrary: dev acts)
  case Nil
  then show ?case by simp
next
  case (Cons c cs)
  have ne: "c \<noteq> SetEventCallback True" and rest: "SetEventCallback True \<notin> set cs"
    using Cons.prems(2) by auto
  obtain d1 a1 where s1: "monitoring_step dev c = Some (d1, a1)"
    using Cons.prems(3) by (auto split: option.splits)
  obtain a2 where s2: "monitoring_calls d1 cs = Some (dev', a2)"
    using Cons.prems(3) s1 by (auto split: option.splits)
  have "\<not> event_callback d1"
    using Cons.prems(1) ne s1 by (rule monitoring_step_no_callback)
  then show ?case
    using rest s2 by (rule Cons.IH)
qed

text \<open>
  Claim C10. \<open>startMonitoring\<close> does nothing when monitoring is already active or no callable
  is registered: it spawns no thread and leaves every field, the monitoring flag included, as
  it was. Hence, whatever calls a fresh session has received, a \<open>startMonitoring\<close> that
  does anything at all comes after a \<open>setEventCallback\<close> that installed a callable.
\<close>

theorem startMonitoring_needs_callback:
  "(monitoring dev \<or> \<not> event_callback dev \<longrightarrow> startMonitoring dev = Some (dev, []))
   \<and> (monitoring_calls new_device calls = Some (dev', acts) \<and>
        startMonitoring dev' \<noteq> Some (dev', []) \<longrightarrow>
        SetEventCallback True \<in> set calls)"
proof -
  have a: "monitoring dev \<or> \<not> event_callback dev \<longrightarrow> startMonitoring dev = Some (dev, [])"
    by (simp add: startMonitoring_def)
  have b: "SetEventCallback True \<in> set calls"
    if r: "monitoring_calls new_device calls = Some (dev', acts)"
      and s: "startMonitoring dev' \<noteq> Some (dev', [])"
  proof (rule ccontr)
    assume n: "SetEventCallback True \<notin> set calls"
    have "\<not> event_callback new_device" by (simp add: new_device_def)
    then have "\<not> event_callback dev'"
      using n r by (rule monitoring_calls_no_callback)
    then show False using s by (simp add: startMonitoring_def)
  qed
  show ?thesis using a b by blast
qed

text \<open>
  The theorem on a fresh session, on a session that is already monitoring, and after one
  \<open>setEventCallback\<close> with a callable, where the thread is spawned.
\<close>

theorem startMonitoring_needs_callback_witness:
  "startMonitoring new_device = Some (new_device, [])
   \<and> startMonitoring (new_device\<lparr>event_callback := True, monitoring := True,
        monitor_thread := True\<rparr>) =
       Some (new_device\<lparr>event_callback := True, monitoring := True, monitor_thread := True\<rparr>, [])
   \<and> monitoring_calls new_device [SetEventCallback True]
       = Some (new_device\<lparr>event_callback := True\<rparr>, [])
   \<and> startMonitoring (new_device\<lparr>event_callback := True\<rparr>)
       = Some (new_device\<lparr>event_callback := True, monitoring := True, monitor_thread := True\<rparr>,
               [Spawn MonitorThread])
   \<and> SetEventCallback True \<in> set [SetEventCallback True]"
proof -
  have c: "monitoring_calls new_device [SetEventCallback True]
       = Some (new_device\<lparr>event_callback := True\<rparr>, [])"
    by (simp add: setEventCallback_def)
  have s: "startMonitoring (new_device\<lparr>event_callback := True\<rparr>)
       = Some (new_device\<lparr>event_callback := True, monitoring := True, monitor_thread := True\<rparr>,
               [Spawn MonitorThread])"
    by (simp add: startMonitoring_def new_device_def)
  have ne: "startMonitoring (new_device\<lparr>event_callback := True\<rparr>)
       \<noteq> Some (new_device\<lparr>event_callback := True\<rparr>, [])"
    unfolding s by simp
  have h1: "monitoring new_device \<or> \<not> event_callback new_device"
    by (simp add: new_device_def)
  have h2: "monitoring (new_device\<lparr>event_callback := True, monitoring := True,
        monitor_thread := True\<rparr>) \<or> \<not> event_callback (new_device\<lparr>event_callback := True,
        monitoring := True, monitor_thread := True\<rparr>)"
    by simp
  note t1 = startMonitoring_needs_callback [of new_device "[SetEventCallback True]"
      "new_device\<lparr>event_callback := True\<rparr>" "[]"]
  note t2 = startMonitoring_needs_callback [of "new_device\<lparr>event_callback := True,
        monitoring := True, monitor_thread := True\<rparr>" "[SetEventCallback True]"
      "new_device\<lparr>event_callback := True\<rparr>" "[]"]
  have r1: "startMonitoring new_device = Some (new_device, [])"
    using t1 h1 by blast
  have r2: "startMonitoring (new_device\<lparr>event_callback := True, monitoring := True,
        monitor_thread := True\<rparr>) =
       Some (new_device\<lparr>event_callback := True, monitoring := True, monitor_thread := True\<rparr>, [])"
    using t2 h2 by blast
  have r3: "SetEventCallback True \<in> set [SetEventCallback True]"
    using t1 c ne by blast
  show ?thesis
    using r1 r2 c s r3 by (simp only: simp_thms)
qed

end
